theory Spec2Isabelle
  imports Main
begin


section \<open>The entry store: table \<open>time_entries\<close>, its constraints and its trigger\<close>

text \<open>
  The table of the migration that creates \<open>time_entries\<close>. A \<open>TIMESTAMP WITH TIME ZONE\<close>
  is an instant with microsecond resolution: it is an \<open>int\<close>, the microseconds since the
  epoch. A UUID is a \<open>nat\<close>. A nullable column is an \<open>option\<close>; the columns declared
  \<open>NOT NULL\<close> are options too, because a row offered to the table may carry NULL there and
  is then refused by the constraint. The foreign keys to users, projects and tasks are kept
  as plain columns; the only referential action modelled is \<open>ON DELETE CASCADE\<close> of
  \<open>user_id\<close>.
\<close>

type_synonym uuid = nat
type_synonym timestamptz = int

record time_entry =
  entry_id :: uuid
  user_id :: "uuid option"
  description :: "string option"
  project_id :: "uuid option"
  task_id :: "uuid option"
  start_time :: "timestamptz option"
  end_time :: "timestamptz option"
  duration :: "int option"
  created_at :: "timestamptz option"
  updated_at :: "timestamptz option"

type_synonym time_entries = "time_entry list"

datatype db_error =
    NotNullViolation string
  | CheckViolation string
  | UniqueViolation string
  | IntegerOutOfRange

text \<open>
  \<open>EXTRACT(EPOCH FROM (NEW.end_time - NEW.start_time))::INTEGER\<close>: the difference of two
  instants is an interval, its epoch is the difference in seconds with six decimals, and
  the cast to \<open>INTEGER\<close> rounds to the nearest whole number (a half away from zero) and
  raises when the result does not fit 32 bits.
\<close>

definition usecs_per_sec :: int where
  "usecs_per_sec = 1000000"

definition round_seconds :: "int \<Rightarrow> int" where
  "round_seconds us =
     (if 0 \<le> us then (us + 500000) div usecs_per_sec
      else - ((- us + 500000) div usecs_per_sec))"

definition cast_integer :: "int \<Rightarrow> db_error + int" where
  "cast_integer us =
     (let n = round_seconds us
      in if - 2147483648 \<le> n \<and> n \<le> 2147483647 then Inr n else Inl IntegerOutOfRange)"

text \<open>
  The trigger function \<open>calculate_duration\<close>, run \<open>BEFORE INSERT OR UPDATE ... FOR EACH ROW\<close>:
  it receives the row about to be written and returns the row that is written.
  \<open>now\<close> is \<open>CURRENT_TIMESTAMP\<close>.
\<close>

definition calculate_duration :: "timestamptz \<Rightarrow> time_entry \<Rightarrow> db_error + time_entry" where
  "calculate_duration now NEW =
     (case (end_time NEW, start_time NEW) of
        (Some e, Some s) \<Rightarrow>
          (case cast_integer (e - s) of
             Inl err \<Rightarrow> Inl err
           | Inr d \<Rightarrow> Inr (NEW\<lparr>duration := Some d, updated_at := Some now\<rparr>))
      | _ \<Rightarrow> Inr (NEW\<lparr>duration := None, updated_at := Some now\<rparr>))"

text \<open>
  Modelled from the spec: \<open>update_updated_at_column\<close>, the trigger function of
  \<open>trigger_time_entries_updated_at\<close>, is not among the migrations at hand; the spec calls
  \<open>updated_at\<close> server-managed, so the function stamps the row with the current time.
\<close>

definition update_updated_at_column :: "timestamptz \<Rightarrow> time_entry \<Rightarrow> time_entry" where
  "update_updated_at_column now NEW = NEW\<lparr>updated_at := Some now\<rparr>"

text \<open>The column constraints \<open>NOT NULL\<close> of \<open>user_id\<close> and \<open>start_time\<close>.\<close>

definition not_null :: "time_entry \<Rightarrow> db_error + unit" where
  "not_null r =
     (if user_id r = None then Inl (NotNullViolation ''user_id'')
      else if start_time r = None then Inl (NotNullViolation ''start_time'')
      else Inr ())"

text \<open>
  \<open>CONSTRAINT chk_end_after_start CHECK (end_time IS NULL OR end_time > start_time)\<close>.
  A check constraint refuses a row only when its expression is false; with a NULL
  \<open>start_time\<close> the comparison is unknown and the check lets the row pass.
\<close>

definition chk_end_after_start :: "time_entry \<Rightarrow> bool" where
  "chk_end_after_start r =
     (case end_time r of
        None \<Rightarrow> True
      | Some e \<Rightarrow> (case start_time r of None \<Rightarrow> True | Some s \<Rightarrow> e > s))"

text \<open>The primary key: no other row of the table has the same \<open>id\<close>.\<close>

definition time_entries_pkey :: "time_entries \<Rightarrow> time_entry \<Rightarrow> bool" where
  "time_entries_pkey others r = (\<forall>x \<in> set others. entry_id x \<noteq> entry_id r)"

text \<open>
  \<open>CREATE UNIQUE INDEX idx_time_entries_user_running ON time_entries(user_id) WHERE end_time IS NULL\<close>:
  only rows with a NULL \<open>end_time\<close> are in the index, and two rows of the index may not
  have the same non-NULL \<open>user_id\<close>.
\<close>

definition idx_time_entries_user_running :: "time_entries \<Rightarrow> time_entry \<Rightarrow> bool" where
  "idx_time_entries_user_running others r =
     (end_time r = None \<longrightarrow> user_id r \<noteq> None \<longrightarrow>
        (\<forall>x \<in> set others. end_time x = None \<longrightarrow> user_id x \<noteq> user_id r))"

text \<open>
  The checks a row passes before it is stored, in the order the database makes them:
  the column constraints, the check constraint, then the unique indexes, against the
  other rows of the table.
\<close>

definition constraints :: "time_entries \<Rightarrow> time_entry \<Rightarrow> db_error + unit" where
  "constraints others r =
     (case not_null r of
        Inl err \<Rightarrow> Inl err
      | Inr _ \<Rightarrow>
          if \<not> chk_end_after_start r then Inl (CheckViolation ''chk_end_after_start'')
          else if \<not> time_entries_pkey others r then Inl (UniqueViolation ''time_entries_pkey'')
          else if \<not> idx_time_entries_user_running others r
            then Inl (UniqueViolation ''idx_time_entries_user_running'')
          else Inr ())"

text \<open>
  \<open>INSERT INTO time_entries\<close> of one row: the trigger, the constraints, and the row is
  added. The check and the insertion are one step of the store: there is no state
  between them in which another statement could run.
\<close>

definition db_insert :: "timestamptz \<Rightarrow> time_entry \<Rightarrow> time_entries \<Rightarrow> db_error + time_entries" where
  "db_insert now NEW tbl =
     (case calculate_duration now NEW of
        Inl err \<Rightarrow> Inl err
      | Inr r \<Rightarrow>
          (case constraints tbl r of
             Inl err \<Rightarrow> Inl err
           | Inr _ \<Rightarrow> Inr (tbl @ [r])))"

text \<open>
  \<open>UPDATE time_entries SET ... WHERE id = rid\<close>: \<open>upd\<close> is the \<open>SET\<close> clause, any function
  of the old row. Both \<open>BEFORE UPDATE\<close> triggers run (in the order of their names), then
  the constraints against the other rows. With no row of that id nothing is written.
\<close>

definition db_update ::
  "timestamptz \<Rightarrow> uuid \<Rightarrow> (time_entry \<Rightarrow> time_entry) \<Rightarrow> time_entries \<Rightarrow> db_error + time_entries" where
  "db_update now rid upd tbl =
     (case filter (\<lambda>x. entry_id x = rid) tbl of
        [] \<Rightarrow> Inr tbl
      | old # _ \<Rightarrow>
          (case calculate_duration now (upd old) of
             Inl err \<Rightarrow> Inl err
           | Inr r1 \<Rightarrow>
               (let r = update_updated_at_column now r1;
                    others = filter (\<lambda>x. entry_id x \<noteq> rid) tbl
                in case constraints others r of
                     Inl err \<Rightarrow> Inl err
                   | Inr _ \<Rightarrow> Inr (others @ [r]))))"

text \<open>\<open>DELETE FROM time_entries WHERE id = rid\<close>, and the cascade of a deleted user.\<close>

definition db_delete :: "uuid \<Rightarrow> time_entries \<Rightarrow> time_entries" where
  "db_delete rid tbl = filter (\<lambda>x. entry_id x \<noteq> rid) tbl"

definition db_delete_user :: "uuid \<Rightarrow> time_entries \<Rightarrow> time_entries" where
  "db_delete_user u tbl = filter (\<lambda>x. user_id x \<noteq> Some u) tbl"

text \<open>The states of the table: the empty table and whatever the statements make of it.\<close>

inductive reachable :: "time_entries \<Rightarrow> bool" where
  empty: "reachable []"
| insert: "reachable tbl \<Longrightarrow> db_insert now NEW tbl = Inr tbl' \<Longrightarrow> reachable tbl'"
| update: "reachable tbl \<Longrightarrow> db_update now rid upd tbl = Inr tbl' \<Longrightarrow> reachable tbl'"
| delete: "reachable tbl \<Longrightarrow> reachable (db_delete rid tbl)"
| delete_user: "reachable tbl \<Longrightarrow> reachable (db_delete_user u tbl)"

definition running :: "uuid \<Rightarrow> time_entries \<Rightarrow> time_entries" where
  "running u tbl = filter (\<lambda>x. user_id x = Some u \<and> end_time x = None) tbl"

text \<open>
  Several \<open>start\<close> requests of one owner: each is the insert of a row with a NULL
  \<open>end_time\<close>. The unique index serialises them, so a race is some order of the inserts;
  \<open>race\<close> runs them in the order given and returns each one's outcome and the table.
\<close>

fun race :: "timestamptz \<Rightarrow> time_entry list \<Rightarrow> time_entries \<Rightarrow> (db_error + unit) list \<times> time_entries" where
  "race now [] tbl = ([], tbl)"
| "race now (NEW # rest) tbl =
     (case db_insert now NEW tbl of
        Inl err \<Rightarrow> (case race now rest tbl of (outs, tbl') \<Rightarrow> (Inl err # outs, tbl'))
      | Inr tbl1 \<Rightarrow> (case race now rest tbl1 of (outs, tbl') \<Rightarrow> (Inr () # outs, tbl')))"

definition start_row :: "uuid \<Rightarrow> uuid \<Rightarrow> timestamptz \<Rightarrow> time_entry" where
  "start_row rid u t =
     \<lparr>entry_id = rid, user_id = Some u, description = None, project_id = None,
      task_id = None, start_time = Some t, end_time = None, duration = None,
      created_at = Some t, updated_at = Some t\<rparr>"

definition completed_row :: "uuid \<Rightarrow> uuid \<Rightarrow> timestamptz \<Rightarrow> timestamptz \<Rightarrow> time_entry" where
  "completed_row rid u s e = (start_row rid u s)\<lparr>end_time := Some e\<rparr>"

text \<open>
  A \<open>start\<close> of owner \<open>u\<close> offers a row of that owner with a NULL \<open>end_time\<close> and a
  \<open>start_time\<close>; the failure it meets when the owner has a running entry is the violation
  of the unique index.
\<close>

definition is_start :: "uuid \<Rightarrow> time_entry \<Rightarrow> bool" where
  "is_start u NEW = (user_id NEW = Some u \<and> end_time NEW = None \<and> start_time NEW \<noteq> None)"

definition conflict :: "db_error + unit" where
  "conflict = Inl (UniqueViolation ''idx_time_entries_user_running'')"

text \<open>What the trigger leaves in \<open>duration\<close>, as a predicate of a stored row.\<close>

definition duration_derived :: "time_entry \<Rightarrow> bool" where
  "duration_derived r =
     (case end_time r of
        None \<Rightarrow> duration r = None
      | Some e \<Rightarrow> (case start_time r of None \<Rightarrow> False
                   | Some s \<Rightarrow> s < e \<and> duration r = Some (round_seconds (e - s))))"


section \<open>The client: types of the API and the timer hook\<close>

text \<open>
  A JavaScript number that is a time value or a count of seconds is an \<open>int\<close>. A time
  value is the milliseconds since the epoch. A rejected promise or a thrown value is an
  error value \<open>exn\<close>: an \<open>Error\<close> with its message, or any other thrown value.
  \<open>new Date(s)\<close> of a string is a function of the runtime and a parameter \<open>date_parse\<close> of
  the model: \<open>None\<close> is the invalid date, whose time value is NaN.
\<close>

datatype exn = Error string | Thrown

datatype 'a nullable = Undefined | Null | Value 'a

text \<open>
  The interface \<open>TimeEntry\<close> of the client, whose fields are strings; the fields carry
  the prefix \<open>te_\<close> to keep them apart from the columns of the table.
\<close>

record TimeEntry =
  te_id :: string
  te_user_id :: string
  te_description :: "string option"
  te_project_id :: "string option"
  te_task_id :: "string option"
  te_start_time :: string
  te_end_time :: "string nullable"
  te_duration :: "int option"
  te_is_running :: bool
  te_created_at :: string
  te_updated_at :: string

record TimerState =
  isRunning :: bool
  currentEntry :: "TimeEntry option"
  elapsedTime :: int
  loading :: bool
  error :: "string option"

text \<open>
  An instance of the hook \<open>useTimer\<close>: its state and \<open>intervalRef\<close>, which holds the
  running interval, that is the entry its callback was created for, or nothing.
\<close>

record useTimer =
  state :: TimerState
  intervalRef :: "TimeEntry option"

definition calculateElapsedTime :: "(string \<Rightarrow> int option) \<Rightarrow> int \<Rightarrow> string \<Rightarrow> int" where
  "calculateElapsedTime date_parse now startTime =
     (if startTime = [] then 0
      else case date_parse startTime of
             None \<Rightarrow> 0
           | Some start \<Rightarrow> max 0 ((now - start) div 1000))"

definition startTimerUpdate :: "TimeEntry \<Rightarrow> useTimer \<Rightarrow> useTimer" where
  "startTimerUpdate entry h = h\<lparr>intervalRef := Some entry\<rparr>"

definition stopTimerUpdate :: "useTimer \<Rightarrow> useTimer" where
  "stopTimerUpdate h = h\<lparr>intervalRef := None\<rparr>"

text \<open>The callback of the interval set by \<open>startTimerUpdate\<close>, fired at time \<open>now\<close>.\<close>

definition tick :: "(string \<Rightarrow> int option) \<Rightarrow> int \<Rightarrow> useTimer \<Rightarrow> useTimer" where
  "tick date_parse now h =
     (case intervalRef h of
        None \<Rightarrow> h
      | Some entry \<Rightarrow>
          h\<lparr>state := (state h)\<lparr>elapsedTime := calculateElapsedTime date_parse now (te_start_time entry)\<rparr>\<rparr>)"

text \<open>\<open>handleVisibilityChange\<close>, called at time \<open>now\<close> with the value of \<open>document.hidden\<close>.\<close>

definition handleVisibilityChange :: "(string \<Rightarrow> int option) \<Rightarrow> int \<Rightarrow> bool \<Rightarrow> useTimer \<Rightarrow> useTimer" where
  "handleVisibilityChange date_parse now hidden h =
     (case currentEntry (state h) of
        None \<Rightarrow> h
      | Some entry \<Rightarrow>
          if isRunning (state h) then
            (if hidden then stopTimerUpdate h
             else startTimerUpdate entry
                    (h\<lparr>state := (state h)\<lparr>elapsedTime :=
                         calculateElapsedTime date_parse now (te_start_time entry)\<rparr>\<rparr>))
          else h)"

datatype timer_event = Tick int | VisibilityChange int bool

fun timer_step :: "(string \<Rightarrow> int option) \<Rightarrow> useTimer \<Rightarrow> timer_event \<Rightarrow> useTimer" where
  "timer_step date_parse h (Tick now) = tick date_parse now h"
| "timer_step date_parse h (VisibilityChange now hidden) = handleVisibilityChange date_parse now hidden h"

definition timer_run :: "(string \<Rightarrow> int option) \<Rightarrow> timer_event list \<Rightarrow> useTimer \<Rightarrow> useTimer" where
  "timer_run date_parse evs h = foldl (timer_step date_parse) h evs"

text \<open>
  The methods of \<open>timeEntriesAPI\<close> that send one request are parameters: each takes the
  state of the server and returns how its promise settles, with the decoded body or with
  the \<open>Error\<close> that \<open>handleResponse\<close> throws, and the state the server is left in.
  The ISO strings of a filter are the time values they denote.
\<close>

record StartTimerRequest =
  sr_description :: "string option"
  sr_project_id :: "string option"
  sr_task_id :: "string option"

record UpdateTimeEntryRequest =
  ur_description :: "string option"
  ur_project_id :: "string option"
  ur_task_id :: "string option"
  ur_start_time :: "string option"
  ur_end_time :: "string option"

record CreateTimeEntryRequest =
  cr_description :: "string option"
  cr_project_id :: "string option"
  cr_task_id :: "string option"
  cr_start_time :: "string option"
  cr_end_time :: "string option"

datatype sort_by = SortStartTime | SortDuration

record TimeEntryFilters =
  start_date :: "int option"
  end_date :: "int option"
  filter_project_id :: "string option"
  filter_task_id :: "string option"
  is_running :: "bool option"
  page :: "int option"
  limit :: "int option"
  sort_by :: "sort_by option"

text \<open>The fields of a list response carry the prefix \<open>resp_\<close>.\<close>

record TimeEntriesListResponse =
  resp_entries :: "TimeEntry list"
  resp_total_count :: int
  resp_total_duration :: int
  resp_page :: int
  resp_per_page :: int

type_synonym ('sv, 'a) promise = "'sv \<Rightarrow> (exn + 'a) \<times> 'sv"

record 'sv TimeEntriesAPI =
  api_getTimeEntries :: "TimeEntryFilters \<Rightarrow> ('sv, TimeEntriesListResponse) promise"
  api_createTimeEntry :: "CreateTimeEntryRequest \<Rightarrow> ('sv, TimeEntry) promise"
  api_updateTimeEntry :: "string \<Rightarrow> UpdateTimeEntryRequest \<Rightarrow> ('sv, TimeEntry) promise"
  api_deleteTimeEntry :: "string \<Rightarrow> ('sv, unit) promise"
  api_startTimer :: "StartTimerRequest \<Rightarrow> ('sv, TimeEntry) promise"
  api_stopTimer :: "string \<Rightarrow> ('sv, TimeEntry) promise"
  api_getCurrentTimer :: "('sv, TimeEntry option) promise"

text \<open>\<open>error instanceof Error ? error.message : fallback\<close>.\<close>

fun error_message :: "exn \<Rightarrow> string \<Rightarrow> string" where
  "error_message (Error m) fallback = m"
| "error_message Thrown fallback = fallback"

text \<open>
  \<open>loadCurrentTimer\<close>, \<open>startTimer\<close> and \<open>stopTimer\<close> of the hook. Each returns how its promise
  settles, the hook and the server afterwards.
\<close>

definition loadCurrentTimer ::
  "'sv TimeEntriesAPI \<Rightarrow> (string \<Rightarrow> int option) \<Rightarrow> int \<Rightarrow> useTimer \<Rightarrow> 'sv \<Rightarrow> useTimer \<times> 'sv" where
  "loadCurrentTimer api date_parse now h sv =
     (let h1 = h\<lparr>state := (state h)\<lparr>loading := True, error := None\<rparr>\<rparr>
      in case api_getCurrentTimer api sv of
           (Inr (Some entry), sv') \<Rightarrow>
             if te_end_time entry = Null then
               (startTimerUpdate entry
                  (h1\<lparr>state := (state h1)\<lparr>isRunning := True, currentEntry := Some entry,
                       elapsedTime := calculateElapsedTime date_parse now (te_start_time entry),
                       loading := False\<rparr>\<rparr>), sv')
             else
               (h1\<lparr>state := (state h1)\<lparr>isRunning := False, currentEntry := None,
                     elapsedTime := 0, loading := False\<rparr>\<rparr>, sv')
         | (Inr None, sv') \<Rightarrow>
             (h1\<lparr>state := (state h1)\<lparr>isRunning := False, currentEntry := None,
                   elapsedTime := 0, loading := False\<rparr>\<rparr>, sv')
         | (Inl e, sv') \<Rightarrow>
             (h1\<lparr>state := (state h1)\<lparr>loading := False,
                   error := Some (error_message e ''Failed to load timer''),
                   isRunning := False, currentEntry := None, elapsedTime := 0\<rparr>\<rparr>, sv'))"

definition startTimer ::
  "'sv TimeEntriesAPI \<Rightarrow> StartTimerRequest \<Rightarrow> useTimer \<Rightarrow> 'sv \<Rightarrow> (exn + TimeEntry) \<times> useTimer \<times> 'sv" where
  "startTimer api data h sv =
     (let h1 = h\<lparr>state := (state h)\<lparr>loading := True, error := None\<rparr>\<rparr>
      in case api_startTimer api data sv of
           (Inr newEntry, sv') \<Rightarrow>
             (Inr newEntry,
              startTimerUpdate newEntry
                (h1\<lparr>state := (state h1)\<lparr>isRunning := True, currentEntry := Some newEntry,
                     elapsedTime := 0, loading := False\<rparr>\<rparr>), sv')
         | (Inl e, sv') \<Rightarrow>
             (Inl e,
              h1\<lparr>state := (state h1)\<lparr>loading := False,
                   error := Some (error_message e ''Failed to start timer'')\<rparr>\<rparr>, sv'))"

definition stopTimer ::
  "'sv TimeEntriesAPI \<Rightarrow> useTimer \<Rightarrow> 'sv \<Rightarrow> (exn + TimeEntry) \<times> useTimer \<times> 'sv" where
  "stopTimer api h sv =
     (case currentEntry (state h) of
        None \<Rightarrow> (Inl (Error ''No timer is currently running''), h, sv)
      | Some cur \<Rightarrow>
          (let h1 = h\<lparr>state := (state h)\<lparr>loading := True, error := None\<rparr>\<rparr>
           in case api_stopTimer api (te_id cur) sv of
                (Inr stoppedEntry, sv') \<Rightarrow>
                  (Inr stoppedEntry,
                   (stopTimerUpdate h1)\<lparr>state := (state h1)\<lparr>isRunning := False, currentEntry := None,
                        elapsedTime := 0, loading := False\<rparr>\<rparr>, sv')
              | (Inl e, sv') \<Rightarrow>
                  (Inl e,
                   h1\<lparr>state := (state h1)\<lparr>loading := False,
                        error := Some (error_message e ''Failed to stop timer'')\<rparr>\<rparr>, sv')))"

section \<open>The runtime's \<open>Date\<close>\<close>

text \<open>
  The abstract operations of the language standard on time values: days, years, months,
  dates and week days of the proleptic Gregorian calendar. \<open>YearFromTime\<close> is specified as
  the largest year whose first day is not after the time; here it is computed from an
  estimate corrected by at most one year, and the specification is proved below
  (\<open>YearFromTime_bounds\<close>, \<open>YearFromTime_unique\<close>). \<open>MakeDay\<close> is specified by the day whose
  year, month and date are the given ones; here it is computed from \<open>DayFromYear\<close> and the
  table of the months, and the specification is proved below (\<open>MakeDay_first\<close>).

  A time value is an instant on the UTC scale. Local time is the business of the time
  zone of the runtime, a parameter \<open>z\<close> of the model: \<open>offset_at\<close> is the offset of local
  time from UTC in force at an instant, and \<open>offset_of_local\<close> is the offset the runtime
  uses to read a local time value back as an instant (where a local time occurs twice or
  not at all, the standard takes the offset before the change). \<open>LocalTime\<close> and \<open>UTC\<close>
  are the two conversions of the standard. Time values outside the range of \<open>Date\<close> are
  not modelled.
\<close>

definition msPerDay :: int where "msPerDay = 86400000"

definition Day :: "int \<Rightarrow> int" where "Day t = t div msPerDay"

definition TimeWithinDay :: "int \<Rightarrow> int" where "TimeWithinDay t = t mod msPerDay"

definition DaysInYear :: "int \<Rightarrow> int" where
  "DaysInYear y =
     (if y mod 4 \<noteq> 0 then 365 else if y mod 100 \<noteq> 0 then 366
      else if y mod 400 \<noteq> 0 then 365 else 366)"

definition DayFromYear :: "int \<Rightarrow> int" where
  "DayFromYear y = 365 * (y - 1970) + (y - 1969) div 4 - (y - 1901) div 100 + (y - 1601) div 400"

definition YearFromTime :: "int \<Rightarrow> int" where
  "YearFromTime t =
     (let d = Day t; y = 1970 + (400 * d) div 146097
      in if DayFromYear (y + 1) \<le> d then y + 1 else if d < DayFromYear y then y - 1 else y)"

definition InLeapYear :: "int \<Rightarrow> int" where
  "InLeapYear t = (if DaysInYear (YearFromTime t) = 366 then 1 else 0)"

definition DayWithinYear :: "int \<Rightarrow> int" where
  "DayWithinYear t = Day t - DayFromYear (YearFromTime t)"

definition MonthFromTime :: "int \<Rightarrow> int" where
  "MonthFromTime t =
     (let d = DayWithinYear t; l = InLeapYear t
      in if d < 31 then 0 else if d < 59 + l then 1 else if d < 90 + l then 2
         else if d < 120 + l then 3 else if d < 151 + l then 4 else if d < 181 + l then 5
         else if d < 212 + l then 6 else if d < 243 + l then 7 else if d < 273 + l then 8
         else if d < 304 + l then 9 else if d < 334 + l then 10 else 11)"

definition DateFromTime :: "int \<Rightarrow> int" where
  "DateFromTime t =
     (let d = DayWithinYear t; l = InLeapYear t; m = MonthFromTime t
      in if m = 0 then d + 1 else if m = 1 then d - 30 else if m = 2 then d - 58 - l
         else if m = 3 then d - 89 - l else if m = 4 then d - 119 - l else if m = 5 then d - 150 - l
         else if m = 6 then d - 180 - l else if m = 7 then d - 211 - l else if m = 8 then d - 242 - l
         else if m = 9 then d - 272 - l else if m = 10 then d - 303 - l else d - 333 - l)"

definition WeekDay :: "int \<Rightarrow> int" where "WeekDay t = (Day t + 4) mod 7"

definition MakeTime :: "int \<Rightarrow> int \<Rightarrow> int \<Rightarrow> int \<Rightarrow> int" where
  "MakeTime hour minute sec ms = hour * 3600000 + minute * 60000 + sec * 1000 + ms"

definition month_start :: "int \<Rightarrow> int \<Rightarrow> int" where
  "month_start l m =
     (if m = 0 then 0 else if m = 1 then 31 else if m = 2 then 59 + l else if m = 3 then 90 + l
      else if m = 4 then 120 + l else if m = 5 then 151 + l else if m = 6 then 181 + l
      else if m = 7 then 212 + l else if m = 8 then 243 + l else if m = 9 then 273 + l
      else if m = 10 then 304 + l else 334 + l)"

definition MakeDay :: "int \<Rightarrow> int \<Rightarrow> int \<Rightarrow> int" where
  "MakeDay year month date =
     (let ym = year + month div 12; mn = month mod 12
      in DayFromYear ym + month_start (if DaysInYear ym = 366 then 1 else 0) mn + date - 1)"

definition MakeDate :: "int \<Rightarrow> int \<Rightarrow> int" where
  "MakeDate day time = day * msPerDay + time"

record zone =
  offset_at :: "int \<Rightarrow> int"
  offset_of_local :: "int \<Rightarrow> int"

definition LocalTime :: "zone \<Rightarrow> int \<Rightarrow> int" where
  "LocalTime z t = t + offset_at z t"

definition UTC :: "zone \<Rightarrow> int \<Rightarrow> int" where
  "UTC z t = t - offset_of_local z t"

text \<open>
  The methods of \<open>Date\<close> the client uses, on the time value \<open>t\<close> of the object:
  \<open>setHours(h, m, s, ms)\<close>, \<open>getDay()\<close>, \<open>getDate()\<close>, \<open>getMonth()\<close>, \<open>getFullYear()\<close>,
  \<open>setDate(d)\<close> and the constructor \<open>new Date(year, month, date)\<close>, which reads a year from
  0 to 99 as a year of the twentieth century. The getters read the fields of the local
  time of \<open>t\<close>; the setters and the constructor build a local time and convert it back.
\<close>

definition setHours :: "zone \<Rightarrow> int \<Rightarrow> int \<Rightarrow> int \<Rightarrow> int \<Rightarrow> int \<Rightarrow> int" where
  "setHours z t hour minute sec ms =
     UTC z (MakeDate (Day (LocalTime z t)) (MakeTime hour minute sec ms))"

definition getDay :: "zone \<Rightarrow> int \<Rightarrow> int" where
  "getDay z t = WeekDay (LocalTime z t)"

definition getDate :: "zone \<Rightarrow> int \<Rightarrow> int" where
  "getDate z t = DateFromTime (LocalTime z t)"

definition getMonth :: "zone \<Rightarrow> int \<Rightarrow> int" where
  "getMonth z t = MonthFromTime (LocalTime z t)"

definition getFullYear :: "zone \<Rightarrow> int \<Rightarrow> int" where
  "getFullYear z t = YearFromTime (LocalTime z t)"

definition setDate :: "zone \<Rightarrow> int \<Rightarrow> int \<Rightarrow> int" where
  "setDate z t date =
     (let lt = LocalTime z t
      in UTC z (MakeDate (MakeDay (YearFromTime lt) (MonthFromTime lt) date) (TimeWithinDay lt)))"

definition new_Date :: "zone \<Rightarrow> int \<Rightarrow> int \<Rightarrow> int \<Rightarrow> int" where
  "new_Date z year month date =
     UTC z (MakeDate (MakeDay (if 0 \<le> year \<and> year \<le> 99 then 1900 + year else year) month date)
              (MakeTime 0 0 0 0))"

section \<open>The client: statistics and the list hook\<close>

text \<open>
  The six dates \<open>getTimeStats\<close> computes from \<open>now\<close>, in the time zone \<open>z\<close> of the client,
  before it sends its requests. Each is sent as an ISO string, which denotes the time
  value, an instant of UTC, to the millisecond.
\<close>

definition todayStart :: "zone \<Rightarrow> int \<Rightarrow> int" where
  "todayStart z now = setHours z now 0 0 0 0"

definition todayEnd :: "zone \<Rightarrow> int \<Rightarrow> int" where
  "todayEnd z now = setHours z now 23 59 59 999"

definition weekStart :: "zone \<Rightarrow> int \<Rightarrow> int" where
  "weekStart z now =
     (let day = getDay z now;
          diff = getDate z now - day + (if day = 0 then - 6 else 1)
      in setHours z (setDate z now diff) 0 0 0 0)"

definition weekEnd :: "zone \<Rightarrow> int \<Rightarrow> int" where
  "weekEnd z now =
     (let ws = weekStart z now
      in setHours z (setDate z ws (getDate z ws + 6)) 23 59 59 999)"

definition monthStart :: "zone \<Rightarrow> int \<Rightarrow> int" where
  "monthStart z now = new_Date z (getFullYear z now) (getMonth z now) 1"

definition monthEnd :: "zone \<Rightarrow> int \<Rightarrow> int" where
  "monthEnd z now =
     setHours z (new_Date z (getFullYear z now) (getMonth z now + 1) 0) 23 59 59 999"

text \<open>
  A zone in which every local time occurs: reading a local time back as an instant and
  taking the local time of that instant gives the local time again.
\<close>

definition roundtrips :: "zone \<Rightarrow> bool" where
  "roundtrips z = (\<forall>x. LocalTime z (UTC z x) = x)"

record TimeStats =
  today :: int
  this_week :: int
  this_month :: int
  total_entries_today :: int
  total_entries_week :: int
  total_entries_month :: int

definition no_filters :: TimeEntryFilters where
  "no_filters =
     \<lparr>start_date = None, end_date = None, filter_project_id = None, filter_task_id = None,
      is_running = None, page = None, limit = None, sort_by = None\<rparr>"

definition today_filters :: "zone \<Rightarrow> int \<Rightarrow> TimeEntryFilters" where
  "today_filters z now =
     no_filters\<lparr>start_date := Some (todayStart z now), end_date := Some (todayEnd z now), limit := Some 100\<rparr>"

definition week_filters :: "zone \<Rightarrow> int \<Rightarrow> TimeEntryFilters" where
  "week_filters z now =
     no_filters\<lparr>start_date := Some (weekStart z now), end_date := Some (weekEnd z now), limit := Some 100\<rparr>"

definition month_filters :: "zone \<Rightarrow> int \<Rightarrow> TimeEntryFilters" where
  "month_filters z now =
     no_filters\<lparr>start_date := Some (monthStart z now), end_date := Some (monthEnd z now), limit := Some 100\<rparr>"

definition zero_stats :: TimeStats where
  "zero_stats =
     \<lparr>today = 0, this_week = 0, this_month = 0, total_entries_today = 0,
      total_entries_week = 0, total_entries_month = 0\<rparr>"

text \<open>
  \<open>getTimeStats\<close>: the three requests of \<open>Promise.all\<close> are sent in the order written; when
  all three are fulfilled the statistics are read off the responses, and when one is
  rejected the \<open>catch\<close> returns the zeros. The promise of \<open>getTimeStats\<close> is never rejected.
  The method \<open>getTimeEntries\<close> it calls is its first argument.
\<close>

definition getTimeStats ::
  "(TimeEntryFilters \<Rightarrow> ('sv, TimeEntriesListResponse) promise) \<Rightarrow> zone \<Rightarrow> int
     \<Rightarrow> ('sv, TimeStats) promise" where
  "getTimeStats getTimeEntries z now sv =
     (case getTimeEntries (today_filters z now) sv of (r1, sv1) \<Rightarrow>
      case getTimeEntries (week_filters z now) sv1 of (r2, sv2) \<Rightarrow>
      case getTimeEntries (month_filters z now) sv2 of (r3, sv3) \<Rightarrow>
        (case (r1, r2, r3) of
           (Inr todayData, Inr weekData, Inr monthData) \<Rightarrow>
             (Inr \<lparr>today = resp_total_duration todayData,
                   this_week = resp_total_duration weekData,
                   this_month = resp_total_duration monthData,
                   total_entries_today = int (length (resp_entries todayData)),
                   total_entries_week = int (length (resp_entries weekData)),
                   total_entries_month = int (length (resp_entries monthData))\<rparr>, sv3)
         | _ \<Rightarrow> (Inr zero_stats, sv3)))"

text \<open>
  The hook \<open>useTimeEntries\<close>: its state (the fields \<open>page\<close>, \<open>loading\<close> and \<open>error\<close> carry the
  prefix \<open>st_\<close>) and its filters.
\<close>

record TimeEntriesState =
  entries :: "TimeEntry list"
  totalCount :: int
  totalDuration :: int
  st_page :: int
  perPage :: int
  st_loading :: bool
  st_error :: "string option"
  stats :: TimeStats
  statsLoading :: bool

record useTimeEntries =
  list_state :: TimeEntriesState
  filters :: TimeEntryFilters

definition loadTimeEntries :: "'sv TimeEntriesAPI \<Rightarrow> useTimeEntries \<Rightarrow> 'sv \<Rightarrow> useTimeEntries \<times> 'sv" where
  "loadTimeEntries api h sv =
     (let h1 = h\<lparr>list_state := (list_state h)\<lparr>st_loading := True, st_error := None\<rparr>\<rparr>
      in case api_getTimeEntries api (filters h) sv of
           (Inr response, sv') \<Rightarrow>
             (h1\<lparr>list_state := (list_state h1)\<lparr>entries := resp_entries response,
                   totalCount := resp_total_count response,
                   totalDuration := resp_total_duration response,
                   st_page := resp_page response,
                   perPage := resp_per_page response,
                   st_loading := False\<rparr>\<rparr>, sv')
         | (Inl e, sv') \<Rightarrow>
             (h1\<lparr>list_state := (list_state h1)\<lparr>st_loading := False,
                   st_error := Some (error_message e ''Failed to load time entries'')\<rparr>\<rparr>, sv'))"

definition loadStats :: "'sv TimeEntriesAPI \<Rightarrow> zone \<Rightarrow> int \<Rightarrow> useTimeEntries \<Rightarrow> 'sv \<Rightarrow> useTimeEntries \<times> 'sv" where
  "loadStats api z now h sv =
     (let h1 = h\<lparr>list_state := (list_state h)\<lparr>statsLoading := True\<rparr>\<rparr>
      in case getTimeStats (api_getTimeEntries api) z now sv of
           (Inr s, sv') \<Rightarrow> (h1\<lparr>list_state := (list_state h1)\<lparr>stats := s, statsLoading := False\<rparr>\<rparr>, sv')
         | (Inl e, sv') \<Rightarrow> (h1\<lparr>list_state := (list_state h1)\<lparr>statsLoading := False\<rparr>\<rparr>, sv'))"

text \<open>
  \<open>createEntry\<close>, \<open>updateEntry\<close> and \<open>deleteEntry\<close>. The two loads of a \<open>Promise.all\<close> write
  different fields of the state and are run one after the other.
\<close>

definition createEntry ::
  "'sv TimeEntriesAPI \<Rightarrow> zone \<Rightarrow> int \<Rightarrow> CreateTimeEntryRequest \<Rightarrow> useTimeEntries \<Rightarrow> 'sv
     \<Rightarrow> (exn + TimeEntry) \<times> useTimeEntries \<times> 'sv" where
  "createEntry api z now data h sv =
     (case api_createTimeEntry api data sv of
        (Inr newEntry, sv1) \<Rightarrow>
          (case loadTimeEntries api h sv1 of (h2, sv2) \<Rightarrow>
           case loadStats api z now h2 sv2 of (h3, sv3) \<Rightarrow> (Inr newEntry, h3, sv3))
      | (Inl e, sv1) \<Rightarrow> (Inl e, h, sv1))"

definition updateEntry ::
  "'sv TimeEntriesAPI \<Rightarrow> zone \<Rightarrow> int \<Rightarrow> string \<Rightarrow> UpdateTimeEntryRequest \<Rightarrow> useTimeEntries \<Rightarrow> 'sv
     \<Rightarrow> (exn + TimeEntry) \<times> useTimeEntries \<times> 'sv" where
  "updateEntry api z now eid data h sv =
     (case api_updateTimeEntry api eid data sv of
        (Inr updatedEntry, sv1) \<Rightarrow>
          (let h1 = h\<lparr>list_state := (list_state h)\<lparr>entries :=
                      map (\<lambda>entry. if te_id entry = eid then updatedEntry else entry)
                        (entries (list_state h))\<rparr>\<rparr>
           in case loadStats api z now h1 sv1 of (h2, sv2) \<Rightarrow> (Inr updatedEntry, h2, sv2))
      | (Inl e, sv1) \<Rightarrow>
          (case loadTimeEntries api h sv1 of (h2, sv2) \<Rightarrow> (Inl e, h2, sv2)))"

definition optimistic_delete :: "string \<Rightarrow> useTimeEntries \<Rightarrow> useTimeEntries" where
  "optimistic_delete eid h =
     h\<lparr>list_state := (list_state h)\<lparr>
          entries := filter (\<lambda>entry. te_id entry \<noteq> eid) (entries (list_state h)),
          totalCount := max 0 (totalCount (list_state h) - 1)\<rparr>\<rparr>"

definition deleteEntry ::
  "'sv TimeEntriesAPI \<Rightarrow> zone \<Rightarrow> int \<Rightarrow> string \<Rightarrow> useTimeEntries \<Rightarrow> 'sv
     \<Rightarrow> (exn + unit) \<times> useTimeEntries \<times> 'sv" where
  "deleteEntry api z now eid h sv =
     (let h1 = optimistic_delete eid h
      in case api_deleteTimeEntry api eid sv of
           (Inr _, sv1) \<Rightarrow>
             (case loadTimeEntries api h1 sv1 of (h2, sv2) \<Rightarrow>
              case loadStats api z now h2 sv2 of (h3, sv3) \<Rightarrow> (Inr (), h3, sv3))
         | (Inl e, sv1) \<Rightarrow>
             (case loadTimeEntries api h1 sv1 of (h2, sv2) \<Rightarrow> (Inl e, h2, sv2)))"

section \<open>The proxy routes\<close>

text \<open>
  A response as a route sees it: the status, the field \<open>error\<close> of an error body and the
  decoded body. A request carries the \<open>Authorization\<close> header, \<open>None\<close> when the header is
  missing or empty (the routes test \<open>!authHeader\<close>), and the body, which is \<open>None\<close> when it
  is not JSON. The \<open>fetch\<close> of a route is its argument: it takes the
  header and the body to the backend and returns the backend's response, or throws.
\<close>

record 'a response =
  status :: nat
  error_field :: "string option"
  payload :: "'a option"

record 'b request =
  authorization :: "string option"
  json :: "'b option"

definition ok :: "'a response \<Rightarrow> bool" where
  "ok r = (200 \<le> status r \<and> status r \<le> 299)"

definition json_error :: "nat \<Rightarrow> string \<Rightarrow> 'a response" where
  "json_error code msg = \<lparr>status = code, error_field = Some msg, payload = None\<rparr>"

text \<open>\<open>errorData.error || fallback\<close>.\<close>

definition error_or :: "string option \<Rightarrow> string \<Rightarrow> string" where
  "error_or e fallback = (case e of None \<Rightarrow> fallback | Some m \<Rightarrow> if m = [] then fallback else m)"

text \<open>
  \<open>body.start_time && body.end_time\<close> followed by \<open>endTime <= startTime\<close> on the two dates:
  both fields are non-empty strings, and the comparison of the time values holds, which it
  does not when one of them is NaN.
\<close>

definition end_before_start :: "(string \<Rightarrow> int option) \<Rightarrow> string option \<Rightarrow> string option \<Rightarrow> bool" where
  "end_before_start date_parse start_field end_field =
     (case (start_field, end_field) of
        (Some s, Some e) \<Rightarrow>
          s \<noteq> [] \<and> e \<noteq> [] \<and>
          (case (date_parse s, date_parse e) of
             (Some startTime, Some endTime) \<Rightarrow> endTime \<le> startTime
           | _ \<Rightarrow> False)
      | _ \<Rightarrow> False)"

text \<open>\<open>POST /api/time-entries\<close>.\<close>

definition POST ::
  "(string \<Rightarrow> int option) \<Rightarrow> (string \<Rightarrow> CreateTimeEntryRequest \<Rightarrow> ('sv, TimeEntry response) promise)
     \<Rightarrow> CreateTimeEntryRequest request \<Rightarrow> 'sv \<Rightarrow> TimeEntry response \<times> 'sv" where
  "POST date_parse fetch req sv =
     (case authorization req of
        None \<Rightarrow> (json_error 401 ''Unauthorized'', sv)
      | Some authHeader \<Rightarrow>
          (case json req of
             None \<Rightarrow> (json_error 500 ''Internal server error'', sv)
           | Some body \<Rightarrow>
               if end_before_start date_parse (cr_start_time body) (cr_end_time body)
               then (json_error 400 ''End time must be after start time'', sv)
               else
                 (case fetch authHeader body sv of
                    (Inl e, sv') \<Rightarrow> (json_error 500 ''Internal server error'', sv')
                  | (Inr response, sv') \<Rightarrow>
                      if \<not> ok response
                      then (json_error (status response)
                              (error_or (error_field response) ''Failed to create time entry''), sv')
                      else
                        (case payload response of
                           None \<Rightarrow> (json_error 500 ''Internal server error'', sv')
                         | Some data \<Rightarrow>
                             (\<lparr>status = 201, error_field = None, payload = Some data\<rparr>, sv')))))"

text \<open>\<open>PATCH /api/time-entries/[id]\<close>.\<close>

definition PATCH ::
  "(string \<Rightarrow> int option)
     \<Rightarrow> (string \<Rightarrow> string \<Rightarrow> UpdateTimeEntryRequest \<Rightarrow> ('sv, TimeEntry response) promise)
     \<Rightarrow> string \<Rightarrow> UpdateTimeEntryRequest request \<Rightarrow> 'sv \<Rightarrow> TimeEntry response \<times> 'sv" where
  "PATCH date_parse fetch eid req sv =
     (case authorization req of
        None \<Rightarrow> (json_error 401 ''Unauthorized'', sv)
      | Some authHeader \<Rightarrow>
          (case json req of
             None \<Rightarrow> (json_error 500 ''Internal server error'', sv)
           | Some body \<Rightarrow>
               if end_before_start date_parse (ur_start_time body) (ur_end_time body)
               then (json_error 400 ''End time must be after start time'', sv)
               else
                 (case fetch authHeader eid body sv of
                    (Inl e, sv') \<Rightarrow> (json_error 500 ''Internal server error'', sv')
                  | (Inr response, sv') \<Rightarrow>
                      if \<not> ok response
                      then (json_error (status response)
                              (error_or (error_field response) ''Failed to update time entry''), sv')
                      else
                        (case payload response of
                           None \<Rightarrow> (json_error 500 ''Internal server error'', sv')
                         | Some data \<Rightarrow>
                             (\<lparr>status = 200, error_field = None, payload = Some data\<rparr>, sv')))))"

section \<open>The backend service\<close>

text \<open>
  Modelled from the spec: the service behind the routes (models, repositories, services and controllers of the
  backend) is missing from the sources. What follows is written after the specification
  of the entry store and of the listing engine, on top of the table above. The codec between
  the wire and the table is a parameter: the parser of timestamps, the printer of
  timestamps and of ids, the parser of ids, and the owner an \<open>Authorization\<close> header stands
  for.
\<close>

record wire =
  parse_ts :: "string \<Rightarrow> timestamptz option"
  iso :: "timestamptz \<Rightarrow> string"
  uuid_of :: "string \<Rightarrow> uuid option"
  uuid_str :: "uuid \<Rightarrow> string"
  auth_owner :: "string \<Rightarrow> uuid option"

text \<open>
  Modelled from the spec: the serialiser of a stored entry, missing from the sources; the
  fields are those of the interface \<open>TimeEntry\<close>, and \<open>is_running\<close> says that \<open>end_time\<close> is
  NULL.
\<close>

definition to_json :: "wire \<Rightarrow> time_entry \<Rightarrow> TimeEntry" where
  "to_json w r =
     \<lparr>te_id = uuid_str w (entry_id r),
      te_user_id = (case user_id r of None \<Rightarrow> [] | Some u \<Rightarrow> uuid_str w u),
      te_description = description r,
      te_project_id = map_option (uuid_str w) (project_id r),
      te_task_id = map_option (uuid_str w) (task_id r),
      te_start_time = (case start_time r of None \<Rightarrow> [] | Some t \<Rightarrow> iso w t),
      te_end_time = (case end_time r of None \<Rightarrow> Null | Some t \<Rightarrow> Value (iso w t)),
      te_duration = duration r,
      te_is_running = (end_time r = None),
      te_created_at = (case created_at r of None \<Rightarrow> [] | Some t \<Rightarrow> iso w t),
      te_updated_at = (case updated_at r of None \<Rightarrow> [] | Some t \<Rightarrow> iso w t)\<rparr>"

text \<open>
  Modelled from the spec: the reader of an optional timestamp of a body, missing from the
  sources: the field is absent, unreadable, or an instant. A description is too long when
  it has more than 1000 characters.
\<close>

datatype 'a field = Absent | Unreadable | Given 'a

definition read_ts :: "wire \<Rightarrow> string option \<Rightarrow> timestamptz field" where
  "read_ts w v =
     (case v of
        None \<Rightarrow> Absent
      | Some s \<Rightarrow> (case parse_ts w s of None \<Rightarrow> Unreadable | Some t \<Rightarrow> Given t))"

definition too_long :: "string option \<Rightarrow> bool" where
  "too_long d = (case d of None \<Rightarrow> False | Some s \<Rightarrow> length s > 1000)"

text \<open>
  Modelled from the spec: how the service reports a failure of the store, missing from the
  sources: the violation of the unique index of I1 is the conflict, 409, any other is 500.
\<close>

definition db_failure :: "db_error \<Rightarrow> 'a response" where
  "db_failure e =
     (if e = UniqueViolation ''idx_time_entries_user_running''
      then json_error 409 ''A timer is already running''
      else json_error 500 ''Internal server error'')"

text \<open>
  Modelled from the spec: \<open>create(entry_draft)\<close> of the entry store, missing from the
  sources. It validates the draft (\<open>start_time\<close> required and not in the future, the
  description of at most 1000 characters, and I2: a supplied \<open>end_time\<close> is strictly after
  \<open>start_time\<close>), answers 400 when the validation fails, and inserts; \<open>rid\<close> is the id
  generated for the row.
\<close>

definition backend_create ::
  "wire \<Rightarrow> timestamptz \<Rightarrow> uuid \<Rightarrow> string \<Rightarrow> CreateTimeEntryRequest \<Rightarrow> (time_entries, TimeEntry response) promise" where
  "backend_create w now rid authHeader body tbl =
     (case auth_owner w authHeader of
        None \<Rightarrow> (Inr (json_error 401 ''Unauthorized''), tbl)
      | Some owner \<Rightarrow>
          (case (read_ts w (cr_start_time body), read_ts w (cr_end_time body)) of
             (Given s, e) \<Rightarrow>
               if e = Unreadable \<or> too_long (cr_description body) \<or> now < s
                  \<or> (case e of Given e' \<Rightarrow> e' \<le> s | _ \<Rightarrow> False)
               then (Inr (json_error 400 ''Validation failed''), tbl)
               else
                 (case db_insert now
                         \<lparr>entry_id = rid, user_id = Some owner, description = cr_description body,
                          project_id = Option.bind (cr_project_id body) (uuid_of w),
                          task_id = Option.bind (cr_task_id body) (uuid_of w),
                          start_time = Some s,
                          end_time = (case e of Given e' \<Rightarrow> Some e' | _ \<Rightarrow> None),
                          duration = None, created_at = Some now, updated_at = Some now\<rparr> tbl of
                    Inl err \<Rightarrow> (Inr (db_failure err), tbl)
                  | Inr tbl' \<Rightarrow>
                      (Inr \<lparr>status = 201, error_field = None,
                            payload = Some (to_json w (last tbl'))\<rparr>, tbl'))
           | _ \<Rightarrow> (Inr (json_error 400 ''Validation failed''), tbl)))"

text \<open>
  Modelled from the spec: \<open>update(id, owner, patch)\<close> of the entry store, missing from the
  sources. No entry of that id is 404, the entry of another owner is 403 (I4), and the
  patch is merged into the stored entry; I2 is validated again on the merged entry, with
  400 when it fails; then the row is updated.
\<close>

text \<open>
  Modelled from the spec: the merge of a patch into the stored entry, missing from the
  sources: a field the patch supplies replaces the stored one.
\<close>

definition merge_patch :: "wire \<Rightarrow> UpdateTimeEntryRequest \<Rightarrow> time_entry \<Rightarrow> time_entry" where
  "merge_patch w patch old =
     old\<lparr>description := (case ur_description patch of None \<Rightarrow> description old | Some d \<Rightarrow> Some d),
         project_id := (case ur_project_id patch of None \<Rightarrow> project_id old | Some p \<Rightarrow> uuid_of w p),
         task_id := (case ur_task_id patch of None \<Rightarrow> task_id old | Some p \<Rightarrow> uuid_of w p),
         start_time := (case read_ts w (ur_start_time patch) of Given s \<Rightarrow> Some s | _ \<Rightarrow> start_time old),
         end_time := (case read_ts w (ur_end_time patch) of Given e \<Rightarrow> Some e | _ \<Rightarrow> end_time old)\<rparr>"

definition backend_update ::
  "wire \<Rightarrow> timestamptz \<Rightarrow> string \<Rightarrow> string \<Rightarrow> UpdateTimeEntryRequest \<Rightarrow> (time_entries, TimeEntry response) promise" where
  "backend_update w now authHeader eid patch tbl =
     (case auth_owner w authHeader of
        None \<Rightarrow> (Inr (json_error 401 ''Unauthorized''), tbl)
      | Some owner \<Rightarrow>
          (case Option.bind (uuid_of w eid) (\<lambda>rid. find (\<lambda>x. entry_id x = rid) tbl) of
             None \<Rightarrow> (Inr (json_error 404 ''Time entry not found''), tbl)
           | Some old \<Rightarrow>
               if user_id old \<noteq> Some owner then (Inr (json_error 403 ''Forbidden''), tbl)
               else if read_ts w (ur_start_time patch) = Unreadable
                       \<or> read_ts w (ur_end_time patch) = Unreadable
                       \<or> too_long (ur_description patch)
                       \<or> \<not> chk_end_after_start (merge_patch w patch old)
               then (Inr (json_error 400 ''Validation failed''), tbl)
               else
                 (case db_update now (entry_id old) (merge_patch w patch) tbl of
                    Inl err \<Rightarrow> (Inr (db_failure err), tbl)
                  | Inr tbl' \<Rightarrow>
                      (Inr \<lparr>status = 200, error_field = None,
                            payload = Some (to_json w (last tbl'))\<rparr>, tbl'))))"

text \<open>
  Modelled from the spec: \<open>query(owner, filter, sort, page)\<close> of the listing engine, missing
  from the sources. The date range is inclusive and is a range of \<open>start_time\<close>; the
  bounds of a filter are in milliseconds and the instants of the table in microseconds.
  The totals are those of the full filtered set, a running entry counting with the whole
  seconds elapsed so far; the page is a slice of the sorted set, with \<open>page_size\<close> clamped
  to 1..100 (20 when absent) and \<open>page\<close> to 1..1000 (1 when absent).
\<close>

definition in_date_range :: "int option \<Rightarrow> int option \<Rightarrow> timestamptz \<Rightarrow> bool" where
  "in_date_range lo hi t =
     ((case lo of None \<Rightarrow> True | Some a \<Rightarrow> a * 1000 \<le> t)
      \<and> (case hi of None \<Rightarrow> True | Some b \<Rightarrow> t \<le> b * 1000))"

text \<open>
  Modelled from the spec: the filter predicate of the listing engine, missing from the
  sources: the owner, the date range, the project, the task and the running flag.
\<close>

definition matches :: "wire \<Rightarrow> uuid \<Rightarrow> TimeEntryFilters \<Rightarrow> time_entry \<Rightarrow> bool" where
  "matches w owner f r =
     (user_id r = Some owner
      \<and> (case start_time r of None \<Rightarrow> False | Some t \<Rightarrow> in_date_range (start_date f) (end_date f) t)
      \<and> (case filter_project_id f of None \<Rightarrow> True | Some p \<Rightarrow> map_option (uuid_str w) (project_id r) = Some p)
      \<and> (case filter_task_id f of None \<Rightarrow> True | Some p \<Rightarrow> map_option (uuid_str w) (task_id r) = Some p)
      \<and> (case is_running f of None \<Rightarrow> True | Some b \<Rightarrow> (end_time r = None) = b))"

text \<open>
  Modelled from the spec: clamping of the page parameters, the contribution of an entry to
  the total duration, and the two sort orders (\<open>start_time\<close> descending by default;
  by duration descending with the running entries first), missing from the sources.
\<close>

definition clamp :: "int \<Rightarrow> int \<Rightarrow> int \<Rightarrow> int" where
  "clamp least most v = (if v < least then least else if most < v then most else v)"

definition contribution :: "timestamptz \<Rightarrow> time_entry \<Rightarrow> int" where
  "contribution now r =
     (case end_time r of
        Some e \<Rightarrow> (case duration r of None \<Rightarrow> 0 | Some d \<Rightarrow> d)
      | None \<Rightarrow> (case start_time r of None \<Rightarrow> 0 | Some s \<Rightarrow> (now - s) div usecs_per_sec))"

definition start_key :: "time_entry \<Rightarrow> int" where
  "start_key r = (case start_time r of None \<Rightarrow> 0 | Some t \<Rightarrow> t)"

definition duration_key :: "time_entry \<Rightarrow> int" where
  "duration_key r = (case duration r of None \<Rightarrow> 0 | Some d \<Rightarrow> d)"

definition sorted_by :: "sort_by option \<Rightarrow> time_entries \<Rightarrow> time_entries" where
  "sorted_by s rows =
     (case s of
        Some SortDuration \<Rightarrow>
          filter (\<lambda>r. duration r = None) rows
            @ rev (sort_key duration_key (filter (\<lambda>r. duration r \<noteq> None) rows))
      | _ \<Rightarrow> rev (sort_key start_key rows))"

definition query :: "wire \<Rightarrow> timestamptz \<Rightarrow> uuid \<Rightarrow> TimeEntryFilters \<Rightarrow> time_entries \<Rightarrow> TimeEntriesListResponse" where
  "query w now owner f tbl =
     (let page_size = clamp 1 100 (case limit f of None \<Rightarrow> 20 | Some l \<Rightarrow> l);
          pg = clamp 1 1000 (case page f of None \<Rightarrow> 1 | Some p \<Rightarrow> p);
          filtered = filter (matches w owner f) tbl
      in \<lparr>resp_entries =
            map (to_json w)
              (take (nat page_size) (drop (nat ((pg - 1) * page_size)) (sorted_by (sort_by f) filtered))),
          resp_total_count = int (length filtered),
          resp_total_duration = sum_list (map (contribution now) filtered),
          resp_page = pg,
          resp_per_page = page_size\<rparr>)"

text \<open>
  Modelled from the spec: the list endpoint as the method \<open>getTimeEntries\<close> of the client
  sees it, for a request of \<open>owner\<close> that succeeds.
\<close>

definition list_endpoint ::
  "wire \<Rightarrow> timestamptz \<Rightarrow> uuid \<Rightarrow> TimeEntryFilters \<Rightarrow> (time_entries, TimeEntriesListResponse) promise" where
  "list_endpoint w now owner f tbl = (Inr (query w now owner f tbl), tbl)"

text \<open>
  A hook with a running timer for \<open>entry\<close>: the state says so, and the interval, when
  there is one, is the one created for that entry.
\<close>

definition timer_running :: "TimeEntry \<Rightarrow> useTimer \<Rightarrow> bool" where
  "timer_running entry h =
     (isRunning (state h) \<and> currentEntry (state h) = Some entry
      \<and> (intervalRef h = None \<or> intervalRef h = Some entry))"

text \<open>Values for the examples: a parser that knows two dates, an entry, a hook, an API.\<close>

definition example_parse :: "string \<Rightarrow> int option" where
  "example_parse s =
     (if s = ''1970-01-01T00:00:10.000Z'' then Some 10000
      else if s = ''1970-01-02T00:00:00.000Z'' then Some 86400000
      else None)"

definition example_entry :: TimeEntry where
  "example_entry =
     \<lparr>te_id = ''e1'', te_user_id = ''u7'', te_description = None, te_project_id = None,
      te_task_id = None, te_start_time = ''1970-01-01T00:00:10.000Z'', te_end_time = Null,
      te_duration = None, te_is_running = True, te_created_at = ''1970-01-01T00:00:10.000Z'',
      te_updated_at = ''1970-01-01T00:00:10.000Z''\<rparr>"

definition example_timer :: useTimer where
  "example_timer =
     \<lparr>state = \<lparr>isRunning = True, currentEntry = Some example_entry, elapsedTime = 3,
               loading = False, error = None\<rparr>,
      intervalRef = Some example_entry\<rparr>"

text \<open>A server that counts the requests it gets and refuses each of them.\<close>

definition refusing_api :: "string \<Rightarrow> nat TimeEntriesAPI" where
  "refusing_api msg =
     \<lparr>api_getTimeEntries = (\<lambda>f n. (Inl (Error msg), Suc n)),
      api_createTimeEntry = (\<lambda>d n. (Inl (Error msg), Suc n)),
      api_updateTimeEntry = (\<lambda>i d n. (Inl (Error msg), Suc n)),
      api_deleteTimeEntry = (\<lambda>i n. (Inl (Error msg), Suc n)),
      api_startTimer = (\<lambda>d n. (Inl (Error msg), Suc n)),
      api_stopTimer = (\<lambda>i n. (Inl (Error msg), Suc n)),
      api_getCurrentTimer = (\<lambda>n. (Inl (Error msg), Suc n))\<rparr>"

definition example_request :: StartTimerRequest where
  "example_request = \<lparr>sr_description = Some ''B'', sr_project_id = None, sr_task_id = None\<rparr>"

text \<open>A list method that counts its requests and refuses the second one.\<close>

definition empty_response :: TimeEntriesListResponse where
  "empty_response =
     \<lparr>resp_entries = [], resp_total_count = 0, resp_total_duration = 0, resp_page = 1, resp_per_page = 100\<rparr>"

definition flaky_list :: "TimeEntryFilters \<Rightarrow> (nat, TimeEntriesListResponse) promise" where
  "flaky_list f n = (if n = 1 then Inl (Error ''HTTP 500: Internal Server Error'') else Inr empty_response, Suc n)"

text \<open>
  A codec for the examples, and a table with 101 completed entries of owner 7, one a second
  from the first second of the first of January 1970 on, each a minute long and inserted
  at second 200.
\<close>

definition example_wire :: wire where
  "example_wire =
     \<lparr>parse_ts = (\<lambda>s. if s = ''1970-01-01T00:00:10.000000Z'' then Some 10000000
                        else if s = ''1970-01-01T00:00:05.000000Z'' then Some 5000000 else None),
      iso = (\<lambda>t. []), uuid_of = (\<lambda>s. if s = ''e10'' then Some 10 else None),
      uuid_str = (\<lambda>u. []), auth_owner = (\<lambda>a. if a = ''Bearer u7'' then Some 7 else None)\<rparr>"

definition busy_row :: "nat \<Rightarrow> time_entry" where
  "busy_row i =
     (completed_row i 7 (int i * 1000000) (int i * 1000000 + 60000000))
       \<lparr>duration := Some 60, updated_at := Some 200000000\<rparr>"

definition busy_day :: time_entries where
  "busy_day = map busy_row [0..<101]"

text \<open>
  The entries of \<open>owner\<close> whose \<open>start_time\<close> is on the local day of \<open>now\<close>, and those whose
  \<open>start_time\<close> is in the local week of \<open>now\<close>, Monday to Sunday: the day, and the Monday
  on or before the day, of the local time of the entry's start and of \<open>now\<close> are the same.
  The instants of the table are in microseconds.
\<close>

definition local_day :: "zone \<Rightarrow> timestamptz \<Rightarrow> int" where
  "local_day z t = Day (LocalTime z (t div 1000))"


definition started_today :: "zone \<Rightarrow> int \<Rightarrow> uuid \<Rightarrow> time_entries \<Rightarrow> time_entries" where
  "started_today z now owner tbl =
     filter (\<lambda>r. user_id r = Some owner \<and>
                 (case start_time r of
                    None \<Rightarrow> False
                  | Some t \<Rightarrow> local_day z t = local_day z (now * 1000))) tbl"


text \<open>
  Two time zones: UTC, and central Europe in the spring of 2024, where the offset is one
  hour until 2024-03-31 01:00 UTC and two hours from then on, and the local times from
  02:00 to 03:00 of that day do not occur.
\<close>

definition utc_zone :: zone where
  "utc_zone = \<lparr>offset_at = (\<lambda>t. 0), offset_of_local = (\<lambda>t. 0)\<rparr>"

definition cet_zone :: zone where
  "cet_zone =
     \<lparr>offset_at = (\<lambda>t. if t < 1711846800000 then 3600000 else 7200000),
      offset_of_local = (\<lambda>t. if t < 1711854000000 then 3600000 else 7200000)\<rparr>"



text \<open>
  A patch that only moves the end of an entry, to second 5, and the request that carries
  it; a draft whose end is its start, and the request that carries it.
\<close>

definition example_patch :: UpdateTimeEntryRequest where
  "example_patch =
     \<lparr>ur_description = None, ur_project_id = None, ur_task_id = None, ur_start_time = None,
      ur_end_time = Some ''1970-01-01T00:00:05.000000Z''\<rparr>"

definition example_patch_request :: "UpdateTimeEntryRequest request" where
  "example_patch_request = \<lparr>authorization = Some ''Bearer u7'', json = Some example_patch\<rparr>"

definition example_draft :: CreateTimeEntryRequest where
  "example_draft =
     \<lparr>cr_description = None, cr_project_id = None, cr_task_id = None,
      cr_start_time = Some ''1970-01-01T00:00:10.000000Z'',
      cr_end_time = Some ''1970-01-01T00:00:10.000000Z''\<rparr>"

definition example_draft_request :: "CreateTimeEntryRequest request" where
  "example_draft_request = \<lparr>authorization = Some ''Bearer u7'', json = Some example_draft\<rparr>"

text \<open>
  A server whose writes fail and whose list is the one entry it holds, and a list hook
  that shows that entry.
\<close>

definition authoritative_response :: TimeEntriesListResponse where
  "authoritative_response =
     \<lparr>resp_entries = [example_entry], resp_total_count = 1, resp_total_duration = 0,
      resp_page = 1, resp_per_page = 20\<rparr>"

definition failing_writes_api :: "nat TimeEntriesAPI" where
  "failing_writes_api =
     (refusing_api ''Request failed'')
       \<lparr>api_getTimeEntries := (\<lambda>f n. (Inr authoritative_response, Suc n))\<rparr>"

definition example_list :: useTimeEntries where
  "example_list =
     \<lparr>list_state =
        \<lparr>entries = [example_entry], totalCount = 1, totalDuration = 0, st_page = 1, perPage = 20,
         st_loading = False, st_error = None, stats = zero_stats, statsLoading = False\<rparr>,
      filters = no_filters\<lparr>page := Some 1, limit := Some 20, sort_by := Some SortStartTime\<rparr>\<rparr>"

section \<open>Properties of the entry store\<close>

lemma constraints_Inr:
  "constraints others r = Inr v \<Longrightarrow>
     chk_end_after_start r \<and> time_entries_pkey others r \<and> idx_time_entries_user_running others r
     \<and> user_id r \<noteq> None \<and> start_time r \<noteq> None"
  by (auto simp: constraints_def not_null_def split: sum.splits if_splits)

lemma calculate_duration_fields:
  "calculate_duration now NEW = Inr r \<Longrightarrow>
     user_id r = user_id NEW \<and> end_time r = end_time NEW \<and> start_time r = start_time NEW
     \<and> entry_id r = entry_id NEW"
  by (auto simp: calculate_duration_def split: option.splits sum.splits)

lemma running_append: "running u (xs @ ys) = running u xs @ running u ys"
  by (simp add: running_def)

lemma running_filter_le: "length (running u (filter P tbl)) \<le> length (running u tbl)"
proof -
  have "running u (filter P tbl) = filter P (running u tbl)"
    by (simp add: running_def conj_commute)
  then show ?thesis by simp
qed

lemma running_new:
  assumes "idx_time_entries_user_running others r"
  shows "length (running u (others @ [r])) \<le> max 1 (length (running u others))"
proof (cases "user_id r = Some u \<and> end_time r = None")
  case True
  with assms have "\<forall>x \<in> set others. end_time x = None \<longrightarrow> user_id x \<noteq> Some u"
    by (simp add: idx_time_entries_user_running_def)
  then have "running u others = []"
    by (auto simp: running_def filter_empty_conv)
  then show ?thesis by (simp add: running_append running_def)
next
  case False
  then have "running u [r] = []" by (auto simp: running_def)
  then show ?thesis by (simp add: running_append)
qed

lemma db_insert_running:
  assumes "db_insert now NEW tbl = Inr tbl'" and "length (running u tbl) \<le> 1"
  shows "length (running u tbl') \<le> 1"
proof -
  from assms(1) obtain r v where r: "constraints tbl r = Inr v" and t: "tbl' = tbl @ [r]"
    by (auto simp: db_insert_def split: sum.splits)
  from constraints_Inr [OF r] have "idx_time_entries_user_running tbl r" by simp
  from running_new [OF this, of u] assms(2) show ?thesis by (simp add: t)
qed

lemma db_update_running:
  assumes "db_update now rid upd tbl = Inr tbl'" and "length (running u tbl) \<le> 1"
  shows "length (running u tbl') \<le> 1"
proof (cases "filter (\<lambda>x. entry_id x = rid) tbl")
  case Nil
  with assms show ?thesis by (simp add: db_update_def)
next
  case (Cons old rest)
  let ?others = "filter (\<lambda>x. entry_id x \<noteq> rid) tbl"
  from assms(1) Cons obtain r v where r: "constraints ?others r = Inr v" and t: "tbl' = ?others @ [r]"
    by (auto simp: db_update_def Let_def split: sum.splits)
  from constraints_Inr [OF r] have "idx_time_entries_user_running ?others r" by simp
  from running_new [OF this, of u] have "length (running u tbl') \<le> max 1 (length (running u ?others))"
    by (simp add: t)
  also have "\<dots> \<le> max 1 (length (running u tbl))"
    using running_filter_le [of u _ tbl] by (simp add: max.coboundedI2)
  finally show ?thesis using assms(2) by simp
qed

lemma reachable_running: "reachable tbl \<Longrightarrow> length (running u tbl) \<le> 1"
proof (induction rule: reachable.induct)
  case empty
  show ?case by (simp add: running_def)
next
  case (insert tbl now NEW tbl')
  then show ?case by (blast intro: db_insert_running)
next
  case (update tbl now rid upd tbl')
  then show ?case by (blast intro: db_update_running)
next
  case (delete tbl rid)
  then show ?case
    using running_filter_le [of u "\<lambda>x. entry_id x \<noteq> rid" tbl] by (simp add: db_delete_def)
next
  case (delete_user tbl u')
  then show ?case
    using running_filter_le [of u "\<lambda>x. user_id x \<noteq> Some u'" tbl] by (simp add: db_delete_user_def)
qed

lemma start_conflict:
  assumes "is_start u NEW" and "running u tbl \<noteq> []" and "entry_id NEW \<notin> entry_id ` set tbl"
  shows "db_insert now NEW tbl = Inl (UniqueViolation ''idx_time_entries_user_running'')"
proof -
  from assms(2) obtain x where x: "x \<in> set tbl" "user_id x = Some u" "end_time x = None"
    by (auto simp: running_def filter_empty_conv)
  let ?r = "NEW\<lparr>duration := None, updated_at := Some now\<rparr>"
  from assms(1) have c: "calculate_duration now NEW = Inr ?r"
    by (auto simp: calculate_duration_def is_start_def)
  from assms(1) have nn: "not_null ?r = Inr ()" by (auto simp: not_null_def is_start_def)
  from assms(1) have chk: "chk_end_after_start ?r" by (simp add: chk_end_after_start_def is_start_def)
  from assms(3) have pk: "time_entries_pkey tbl ?r"
    by (simp add: time_entries_pkey_def image_iff) metis
  from assms(1) x have idx: "\<not> idx_time_entries_user_running tbl ?r"
    by (auto simp: idx_time_entries_user_running_def is_start_def)
  show ?thesis by (simp add: db_insert_def c constraints_def nn chk pk idx)
qed

lemma start_ok:
  assumes "is_start u NEW" and "running u tbl = []" and "entry_id NEW \<notin> entry_id ` set tbl"
  shows "db_insert now NEW tbl = Inr (tbl @ [NEW\<lparr>duration := None, updated_at := Some now\<rparr>])"
proof -
  let ?r = "NEW\<lparr>duration := None, updated_at := Some now\<rparr>"
  from assms(1) have c: "calculate_duration now NEW = Inr ?r"
    by (auto simp: calculate_duration_def is_start_def)
  from assms(1) have nn: "not_null ?r = Inr ()" by (auto simp: not_null_def is_start_def)
  from assms(1) have chk: "chk_end_after_start ?r" by (simp add: chk_end_after_start_def is_start_def)
  from assms(3) have pk: "time_entries_pkey tbl ?r"
    by (simp add: time_entries_pkey_def image_iff) metis
  from assms(1,2) have idx: "idx_time_entries_user_running tbl ?r"
    by (auto simp: idx_time_entries_user_running_def is_start_def running_def filter_empty_conv)
  show ?thesis by (simp add: db_insert_def c constraints_def nn chk pk idx)
qed

lemma race_all_conflict:
  assumes "\<forall>r \<in> set rows. is_start u r \<and> entry_id r \<notin> entry_id ` set tbl" and "running u tbl \<noteq> []"
  shows "race now rows tbl = (replicate (length rows) conflict, tbl)"
  using assms
proof (induction rows)
  case Nil
  show ?case by simp
next
  case (Cons r rows)
  then have "db_insert now r tbl = Inl (UniqueViolation ''idx_time_entries_user_running'')"
    by (intro start_conflict) auto
  with Cons show ?case by (simp add: conflict_def)
qed

lemma race_one_winner:
  assumes "\<forall>r \<in> set rows. is_start u r \<and> entry_id r \<notin> entry_id ` set tbl"
    and "distinct (map entry_id rows)" and "running u tbl = []" and "rows = NEW # rest"
  shows "fst (race now rows tbl) = Inr () # replicate (length rest) conflict"
    and "running u (snd (race now rows tbl)) = [NEW\<lparr>duration := None, updated_at := Some now\<rparr>]"
proof -
  let ?r = "NEW\<lparr>duration := None, updated_at := Some now\<rparr>"
  let ?tbl1 = "tbl @ [?r]"
  from assms have ins: "db_insert now NEW tbl = Inr ?tbl1"
    by (intro start_ok) auto
  from assms have st: "is_start u NEW" by simp
  then have run1: "running u ?tbl1 = [?r]"
    using assms(3) by (simp add: running_append) (simp add: running_def is_start_def)
  have "\<forall>r \<in> set rest. is_start u r \<and> entry_id r \<notin> entry_id ` set ?tbl1"
    using assms(1,2,4) by (simp add: image_iff) metis
  then have rest: "race now rest ?tbl1 = (replicate (length rest) conflict, ?tbl1)"
    using run1 by (intro race_all_conflict) auto
  show "fst (race now rows tbl) = Inr () # replicate (length rest) conflict"
    by (simp add: assms(4) ins rest)
  show "running u (snd (race now rows tbl)) = [?r]"
    by (simp add: assms(4) ins rest run1)
qed

lemma reachable_example:
  "reachable [(completed_row 1 7 0 3661000000)\<lparr>duration := Some 3661, updated_at := Some 4000000000\<rparr>]"
proof -
  have "db_insert 4000000000 (completed_row 1 7 0 3661000000) [] =
      Inr [(completed_row 1 7 0 3661000000)\<lparr>duration := Some 3661, updated_at := Some 4000000000\<rparr>]"
    by (simp add: db_insert_def calculate_duration_def completed_row_def start_row_def cast_integer_def
        round_seconds_def usecs_per_sec_def constraints_def not_null_def chk_end_after_start_def
        time_entries_pkey_def idx_time_entries_user_running_def)
  from reachable.insert [OF reachable.empty this] show ?thesis .
qed

text \<open>
  Claim C1. In every reachable state of the table each owner has at most one row with a
  NULL \<open>end_time\<close>. When an owner with no running entry sends several \<open>start\<close>
  requests at once (rows of that owner with a NULL \<open>end_time\<close>, with fresh and distinct
  ids), then in whatever order the store takes them exactly the first insert succeeds and
  every other one fails with the violation of \<open>idx_time_entries_user_running\<close>; afterwards
  the winner is the owner's only running entry. The check and the insertion are the one
  step \<open>db_insert\<close> of the store.
\<close>

theorem running_unique:
  "reachable tbl \<Longrightarrow>
     length (running u tbl) \<le> 1 \<and>
     (running u tbl = [] \<longrightarrow>
      (\<forall>r \<in> set (NEW # rest). is_start u r \<and> entry_id r \<notin> entry_id ` set tbl) \<longrightarrow>
      distinct (map entry_id (NEW # rest)) \<longrightarrow>
        fst (race now (NEW # rest) tbl) = Inr () # replicate (length rest) conflict \<and>
        running u (snd (race now (NEW # rest) tbl)) = [NEW\<lparr>duration := None, updated_at := Some now\<rparr>])"
  using reachable_running [of tbl u] race_one_winner [of "NEW # rest" u tbl NEW rest now]
  by blast

theorem running_unique_witness:
  "reachable [(completed_row 1 7 0 3661000000)\<lparr>duration := Some 3661, updated_at := Some 4000000000\<rparr>]
   \<and> fst (race 5000000000 [start_row 2 7 4100000000, start_row 3 7 4100000005, start_row 4 7 4100000009]
        [(completed_row 1 7 0 3661000000)\<lparr>duration := Some 3661, updated_at := Some 4000000000\<rparr>])
     = [Inr (), conflict, conflict]"
  using running_unique [OF reachable_example, of 7 "start_row 2 7 4100000000"
      "[start_row 3 7 4100000005, start_row 4 7 4100000009]" 5000000000] reachable_example
  by (simp add: running_def completed_row_def start_row_def is_start_def)

lemma round_seconds_near: "\<bar>round_seconds us * 1000000 - us\<bar> \<le> 500000"
  unfolding round_seconds_def usecs_per_sec_def by (simp split: if_splits) linarith

lemma round_seconds_exact: "round_seconds (k * 1000000) = k"
  unfolding round_seconds_def usecs_per_sec_def by (simp split: if_splits) linarith

lemma round_seconds_nonneg: "0 \<le> us \<Longrightarrow> 0 \<le> round_seconds us"
  unfolding round_seconds_def usecs_per_sec_def by simp


lemma calculate_duration_derived:
  assumes "calculate_duration now NEW = Inr r" and "start_time r \<noteq> None" and "chk_end_after_start r"
  shows "duration_derived r"
  using assms
  by (auto simp: calculate_duration_def duration_derived_def cast_integer_def Let_def chk_end_after_start_def
      split: option.splits sum.splits if_splits)

lemma db_insert_derived:
  assumes "db_insert now NEW tbl = Inr tbl'" and "\<forall>x \<in> set tbl. duration_derived x"
  shows "\<forall>x \<in> set tbl'. duration_derived x"
proof -
  from assms(1) obtain r v where c: "calculate_duration now NEW = Inr r"
    and k: "constraints tbl r = Inr v" and t: "tbl' = tbl @ [r]"
    by (auto simp: db_insert_def split: sum.splits)
  from constraints_Inr [OF k] calculate_duration_derived [OF c] have "duration_derived r" by simp
  with assms(2) show ?thesis by (simp add: t)
qed

lemma update_updated_at_derived: "duration_derived (update_updated_at_column now r) = duration_derived r"
  by (simp add: update_updated_at_column_def duration_derived_def split: option.splits)

lemma db_update_derived:
  assumes "db_update now rid upd tbl = Inr tbl'" and "\<forall>x \<in> set tbl. duration_derived x"
  shows "\<forall>x \<in> set tbl'. duration_derived x"
proof (cases "filter (\<lambda>x. entry_id x = rid) tbl")
  case Nil
  with assms show ?thesis by (simp add: db_update_def)
next
  case (Cons old rest)
  let ?others = "filter (\<lambda>x. entry_id x \<noteq> rid) tbl"
  from assms(1) Cons obtain r1 v where c: "calculate_duration now (upd old) = Inr r1"
    and k: "constraints ?others (update_updated_at_column now r1) = Inr v"
    and t: "tbl' = ?others @ [update_updated_at_column now r1]"
    by (auto simp: db_update_def Let_def split: sum.splits)
  from constraints_Inr [OF k] have "start_time r1 \<noteq> None" "chk_end_after_start r1"
    by (simp_all add: update_updated_at_column_def chk_end_after_start_def split: option.splits)
  from calculate_duration_derived [OF c this] have "duration_derived r1" .
  with assms(2) show ?thesis by (simp add: t update_updated_at_derived)
qed

lemma reachable_derived: "reachable tbl \<Longrightarrow> \<forall>x \<in> set tbl. duration_derived x"
proof (induction rule: reachable.induct)
  case empty
  show ?case by simp
next
  case (insert tbl now NEW tbl')
  then show ?case by (blast intro: db_insert_derived [rule_format])
next
  case (update tbl now rid upd tbl')
  then show ?case by (blast intro: db_update_derived [rule_format])
next
  case (delete tbl rid)
  then show ?case by (simp add: db_delete_def)
next
  case (delete_user tbl u)
  then show ?case by (simp add: db_delete_user_def)
qed

lemma calculate_duration_ignores:
  "calculate_duration now (NEW\<lparr>duration := d\<rparr>) = calculate_duration now NEW"
  by (simp add: calculate_duration_def split: option.splits sum.splits)

text \<open>
  Claim C3. Every row of a reachable table has a NULL \<open>duration\<close> when its \<open>end_time\<close>
  is NULL, and otherwise a \<open>duration\<close> that is the difference \<open>end_time - start_time\<close> in
  whole seconds: it is not negative, it differs from the exact difference by at most half
  a second, and it is the exact difference when that is a whole number of seconds (3661
  for 3661 seconds). The value a statement supplies for \<open>duration\<close> is ignored by insert
  and update alike: the trigger recomputes it on every write.
\<close>

theorem duration_is_derived:
  "(reachable tbl \<longrightarrow> r \<in> set tbl \<longrightarrow>
      (end_time r = None \<longrightarrow> duration r = None) \<and>
      (\<forall>e. end_time r = Some e \<longrightarrow>
         (\<exists>s d. start_time r = Some s \<and> duration r = Some d \<and> 0 \<le> d
            \<and> \<bar>d * 1000000 - (e - s)\<bar> \<le> 500000
            \<and> (\<forall>k. e - s = k * 1000000 \<longrightarrow> d = k)
            \<and> (e = s + 3661 * 1000000 \<longrightarrow> d = 3661))))
   \<and> db_insert now (NEW\<lparr>duration := x\<rparr>) tbl = db_insert now NEW tbl
   \<and> db_update now rid (\<lambda>old. (upd old)\<lparr>duration := x\<rparr>) tbl = db_update now rid upd tbl"
proof (intro conjI impI allI)
  assume "reachable tbl" "r \<in> set tbl"
  then have d: "duration_derived r" using reachable_derived by blast
  { assume "end_time r = None"
    with d show "duration r = None" by (simp add: duration_derived_def) }
  { fix e assume e: "end_time r = Some e"
    with d obtain s where s: "start_time r = Some s" "s < e" "duration r = Some (round_seconds (e - s))"
      by (auto simp: duration_derived_def split: option.splits)
    have "0 \<le> round_seconds (e - s)" using s(2) by (intro round_seconds_nonneg) simp
    moreover have "\<bar>round_seconds (e - s) * 1000000 - (e - s)\<bar> \<le> 500000" by (rule round_seconds_near)
    moreover have "\<forall>k. e - s = k * 1000000 \<longrightarrow> round_seconds (e - s) = k"
      by (simp add: round_seconds_exact)
    moreover have "e = s + 3661 * 1000000 \<longrightarrow> round_seconds (e - s) = 3661"
      using round_seconds_exact [of 3661] by simp
    ultimately show "\<exists>s d. start_time r = Some s \<and> duration r = Some d \<and> 0 \<le> d
            \<and> \<bar>d * 1000000 - (e - s)\<bar> \<le> 500000
            \<and> (\<forall>k. e - s = k * 1000000 \<longrightarrow> d = k)
            \<and> (e = s + 3661 * 1000000 \<longrightarrow> d = 3661)"
      using s by blast }
next
  show "db_insert now (NEW\<lparr>duration := x\<rparr>) tbl = db_insert now NEW tbl"
    by (simp add: db_insert_def calculate_duration_ignores)
  show "db_update now rid (\<lambda>old. (upd old)\<lparr>duration := x\<rparr>) tbl = db_update now rid upd tbl"
    by (simp add: db_update_def calculate_duration_ignores split: list.splits)
qed

theorem duration_is_derived_witness:
  "reachable [(completed_row 1 7 0 3661000000)\<lparr>duration := Some 3661, updated_at := Some 4000000000\<rparr>]
   \<and> (\<exists>d. duration ((completed_row 1 7 0 3661000000)\<lparr>duration := Some 3661, updated_at := Some 4000000000\<rparr>) = Some d
        \<and> \<bar>d * 1000000 - 3661000000\<bar> \<le> 500000)"
  using duration_is_derived [of "[(completed_row 1 7 0 3661000000)\<lparr>duration := Some 3661, updated_at := Some 4000000000\<rparr>]"
      "(completed_row 1 7 0 3661000000)\<lparr>duration := Some 3661, updated_at := Some 4000000000\<rparr>"] reachable_example
  by (simp add: completed_row_def start_row_def)

section \<open>Properties of the timer hook\<close>

text \<open>
  Claim C10. \<open>calculateElapsedTime\<close> returns a value for every string, every parser and
  every clock, and the value is never negative; it is 0 for the empty string, for a string
  that does not parse, and for a start that is not before \<open>now\<close>.
\<close>

theorem calculateElapsedTime_nonneg:
  "0 \<le> calculateElapsedTime date_parse now s
   \<and> calculateElapsedTime date_parse now [] = 0
   \<and> (date_parse s = None \<longrightarrow> calculateElapsedTime date_parse now s = 0)
   \<and> (\<forall>t. date_parse s = Some t \<longrightarrow> now \<le> t \<longrightarrow> calculateElapsedTime date_parse now s = 0)"
  by (auto simp: calculateElapsedTime_def split: option.splits)


theorem calculateElapsedTime_nonneg_witness:
  "example_parse ''yesterday'' = None \<and> calculateElapsedTime example_parse 20000 ''yesterday'' = 0
   \<and> example_parse ''1970-01-02T00:00:00.000Z'' = Some 86400000 \<and> (20000::int) \<le> 86400000
   \<and> calculateElapsedTime example_parse 20000 ''1970-01-02T00:00:00.000Z'' = 0
   \<and> calculateElapsedTime example_parse 20000 ''1970-01-01T00:00:10.000Z'' = 10"
  using calculateElapsedTime_nonneg [of example_parse 20000 "''yesterday''"]
    calculateElapsedTime_nonneg [of example_parse 20000 "''1970-01-02T00:00:00.000Z''"]
  by (simp add: example_parse_def calculateElapsedTime_def)


lemma timer_step_running: "timer_running entry h \<Longrightarrow> timer_running entry (timer_step date_parse h ev)"
  by (cases ev)
     (auto simp: timer_running_def tick_def handleVisibilityChange_def startTimerUpdate_def
        stopTimerUpdate_def split: option.splits)

lemma timer_run_running: "timer_running entry h \<Longrightarrow> timer_running entry (timer_run date_parse evs h)"
  unfolding timer_run_def
  by (induction evs arbitrary: h) (simp_all add: timer_step_running)

lemma resume_elapsed:
  "timer_running entry h \<Longrightarrow>
     elapsedTime (state (handleVisibilityChange date_parse now False h))
       = calculateElapsedTime date_parse now (te_start_time entry)
     \<and> intervalRef (handleVisibilityChange date_parse now False h) = Some entry"
  by (simp add: timer_running_def handleVisibilityChange_def startTimerUpdate_def)

lemma tick_elapsed:
  "timer_running entry h \<Longrightarrow> intervalRef h \<noteq> None \<Longrightarrow>
     elapsedTime (state (tick date_parse now h)) = calculateElapsedTime date_parse now (te_start_time entry)"
  by (auto simp: timer_running_def tick_def)

lemma calc_parsed:
  "s \<noteq> [] \<Longrightarrow> date_parse s = Some t0 \<Longrightarrow>
     calculateElapsedTime date_parse now s = max 0 ((now - t0) div 1000)"
  by (simp add: calculateElapsedTime_def)

text \<open>
  Claim C7. For a running timer whose \<open>start_time\<close> parses to \<open>t0\<close>: after any ticks and
  visibility changes, when the page becomes visible at \<open>now\<close> the elapsed time shown is
  \<open>(now - t0) div 1000\<close> (0 when the clock is before \<open>t0\<close>), and so is the value after a
  tick of a live interval; the times of the earlier events, among them the length of the
  suspension, do not enter. The value the state held before does not enter either: the
  tick and the resumption give the same hook whatever \<open>elapsedTime\<close> was.
\<close>

theorem elapsed_recomputed:
  assumes "timer_running entry h" and "te_start_time entry \<noteq> []"
    and "date_parse (te_start_time entry) = Some t0"
  shows "elapsedTime (state (handleVisibilityChange date_parse now False (timer_run date_parse evs h)))
           = max 0 ((now - t0) div 1000)
     \<and> (intervalRef (timer_run date_parse evs h) \<noteq> None \<longrightarrow>
          elapsedTime (state (tick date_parse now (timer_run date_parse evs h)))
            = max 0 ((now - t0) div 1000))
     \<and> (t0 \<le> now \<longrightarrow> max 0 ((now - t0) div 1000) = (now - t0) div 1000)
     \<and> handleVisibilityChange date_parse now False (h\<lparr>state := (state h)\<lparr>elapsedTime := x\<rparr>\<rparr>)
          = handleVisibilityChange date_parse now False h
     \<and> (intervalRef h \<noteq> None \<longrightarrow>
          tick date_parse now (h\<lparr>state := (state h)\<lparr>elapsedTime := x\<rparr>\<rparr>) = tick date_parse now h)"
proof -
  have r: "timer_running entry (timer_run date_parse evs h)"
    using assms(1) by (rule timer_run_running)
  have 1: "elapsedTime (state (handleVisibilityChange date_parse now False (timer_run date_parse evs h)))
           = max 0 ((now - t0) div 1000)"
    using resume_elapsed [OF r] calc_parsed [of "te_start_time entry" date_parse t0 now] assms(2,3) by simp
  have 2: "intervalRef (timer_run date_parse evs h) \<noteq> None \<longrightarrow>
          elapsedTime (state (tick date_parse now (timer_run date_parse evs h)))
            = max 0 ((now - t0) div 1000)"
    using tick_elapsed [OF r] calc_parsed [of "te_start_time entry" date_parse t0 now] assms(2,3) by simp
  have 3: "t0 \<le> now \<longrightarrow> max 0 ((now - t0) div 1000) = (now - t0) div 1000"
    by (simp add: pos_imp_zdiv_nonneg_iff)
  have 4: "handleVisibilityChange date_parse now False (h\<lparr>state := (state h)\<lparr>elapsedTime := x\<rparr>\<rparr>)
          = handleVisibilityChange date_parse now False h"
    using assms(1) by (simp add: timer_running_def handleVisibilityChange_def startTimerUpdate_def)
  have 5: "intervalRef h \<noteq> None \<longrightarrow>
      tick date_parse now (h\<lparr>state := (state h)\<lparr>elapsedTime := x\<rparr>\<rparr>) = tick date_parse now h"
    using assms(1) by (auto simp: timer_running_def tick_def split: option.splits)
  from 1 2 3 4 5 show ?thesis by blast
qed

text \<open>
  Claim C8. When the request of \<open>startTimer\<close> fails with \<open>e\<close>, the hook's promise is
  rejected with the same \<open>e\<close>; the server is left as that one request left it, so no
  other request was sent; and the running flag, the current entry, the elapsed time and
  the interval of the hook are what they were. Only \<open>loading\<close> and \<open>error\<close> change.
\<close>

theorem startTimer_failure_surfaces:
  assumes "api_startTimer api data sv = (Inl e, sv')"
  shows "fst (startTimer api data h sv) = Inl e
     \<and> snd (snd (startTimer api data h sv)) = sv'
     \<and> isRunning (state (fst (snd (startTimer api data h sv)))) = isRunning (state h)
     \<and> currentEntry (state (fst (snd (startTimer api data h sv)))) = currentEntry (state h)
     \<and> elapsedTime (state (fst (snd (startTimer api data h sv)))) = elapsedTime (state h)
     \<and> intervalRef (fst (snd (startTimer api data h sv))) = intervalRef h
     \<and> error (state (fst (snd (startTimer api data h sv)))) = Some (error_message e ''Failed to start timer'')"
  using assms by (simp add: startTimer_def)

theorem elapsed_recomputed_witness:
  "timer_running example_entry example_timer
   \<and> example_parse (te_start_time example_entry) = Some 10000
   \<and> elapsedTime (state (handleVisibilityChange example_parse 7210000 False
         (timer_run example_parse [Tick 13000, VisibilityChange 14000 True, Tick 15000] example_timer)))
       = 7200"
  using elapsed_recomputed [of example_entry example_timer example_parse 10000 7210000
      "[Tick 13000, VisibilityChange 14000 True, Tick 15000]" 0]
  by (simp add: timer_running_def example_timer_def example_entry_def example_parse_def)

theorem startTimer_failure_surfaces_witness:
  "api_startTimer (refusing_api ''Timer already running'') example_request 0
       = (Inl (Error ''Timer already running''), 1)
   \<and> fst (startTimer (refusing_api ''Timer already running'') example_request example_timer 0)
       = Inl (Error ''Timer already running'')
   \<and> snd (snd (startTimer (refusing_api ''Timer already running'') example_request example_timer 0)) = 1
   \<and> currentEntry (state (fst (snd
         (startTimer (refusing_api ''Timer already running'') example_request example_timer 0))))
       = Some example_entry"
  using startTimer_failure_surfaces [of "refusing_api ''Timer already running''" example_request 0
      "Error ''Timer already running''" 1 example_timer]
  by (simp add: refusing_api_def example_timer_def)

section \<open>Properties of the calendar\<close>

lemma div_bounds: "0 < k \<Longrightarrow> k * (a div k) \<le> a \<and> a < k * (a div k) + (k::int)"
  using mult_div_mod_eq [of k a] pos_mod_sign [of k a] pos_mod_bound [of k a] by linarith

lemma DayFromYear_flat:
  "400 * DayFromYear y =
     146000 * y - 287620000 + 400 * ((y - 1969) div 4) - 400 * ((y - 1901) div 100) + 400 * ((y - 1601) div 400)"
  by (simp add: DayFromYear_def algebra_simps)

lemma DayFromYear_bounds:
  "146097 * y - 287811596 \<le> 400 * DayFromYear y \<and> 400 * DayFromYear y \<le> 146097 * y - 287810501"
proof -
  define a where "a = (y - 1969) div 4"
  define b where "b = (y - 1901) div 100"
  define c where "c = (y - 1601) div 400"
  have "4 * a \<le> y - 1969" "y - 1969 < 4 * a + 4" "100 * b \<le> y - 1901" "y - 1901 < 100 * b + 100"
    "400 * c \<le> y - 1601" "y - 1601 < 400 * c + 400"
    using div_bounds [of 4 "y - 1969"] div_bounds [of 100 "y - 1901"] div_bounds [of 400 "y - 1601"]
    by (simp_all add: a_def b_def c_def)
  moreover have "400 * DayFromYear y = 146000 * y - 287620000 + 400 * a - 400 * b + 400 * c"
    by (simp add: DayFromYear_flat a_def b_def c_def)
  ultimately show ?thesis by linarith
qed

lemma YearFromTime_bounds:
  "DayFromYear (YearFromTime t) \<le> Day t \<and> Day t < DayFromYear (YearFromTime t + 1)"
proof -
  define d where "d = Day t"
  define q where "q = (400 * d) div 146097"
  define y where "y = 1970 + q"
  have q: "146097 * q \<le> 400 * d" "400 * d < 146097 * q + 146097"
    using div_bounds [of 146097 "400 * d"] by (simp_all add: q_def)
  define ym where "ym = y - 1"
  define yp where "yp = y + 2"
  have ys: "ym = q + 1969" "yp = q + 1972" by (simp_all add: ym_def yp_def y_def)
  have "400 * DayFromYear ym \<le> 400 * d"
    using DayFromYear_bounds [of ym] q ys by linarith
  then have lo: "DayFromYear (y - 1) \<le> d" by (simp add: ym_def)
  have "400 * d < 400 * DayFromYear yp"
    using DayFromYear_bounds [of yp] q ys by linarith
  then have hi: "d < DayFromYear (y + 2)" by (simp add: yp_def)
  have yt: "YearFromTime t =
      (if DayFromYear (y + 1) \<le> d then y + 1 else if d < DayFromYear y then y - 1 else y)"
    by (simp add: YearFromTime_def Let_def d_def y_def q_def)
  show ?thesis
    unfolding yt d_def [symmetric] using lo hi by (auto simp: add.commute)
qed

lemma div_step:
  fixes a k :: int
  assumes "0 < k"
  shows "(a + 1) div k = a div k + (if (a + 1) mod k = 0 then 1 else 0)"
proof (cases "a mod k + 1 < k")
  case True
  have "a + 1 = k * (a div k) + (a mod k + 1)" by simp
  moreover have "0 \<le> a mod k + 1" using assms pos_mod_sign [of k a] by linarith
  ultimately have d: "(a + 1) div k = a div k" and m: "(a + 1) mod k = a mod k + 1"
    using True int_div_pos_eq [of "a + 1" k "a div k" "a mod k + 1"]
      int_mod_pos_eq [of "a + 1" k "a div k" "a mod k + 1"] by auto
  from m assms pos_mod_sign [of k a] have "(a + 1) mod k \<noteq> 0" by linarith
  with d show ?thesis by simp
next
  case False
  with assms pos_mod_bound [of k a] have e: "a mod k = k - 1" by linarith
  have "a + 1 = k * (a div k + 1) + 0"
    using mult_div_mod_eq [of k a] e by (simp add: algebra_simps)
  then have "(a + 1) div k = a div k + 1" and "(a + 1) mod k = 0"
    using assms int_div_pos_eq [of "a + 1" k "a div k + 1" 0]
      int_mod_pos_eq [of "a + 1" k "a div k + 1" 0] by auto
  then show ?thesis by simp
qed

lemma DayFromYear_Suc: "DayFromYear (y + 1) = DayFromYear y + DaysInYear y"
proof -
  have a: "(y + 1 - 1969) div 4 = (y - 1969) div 4 + (if y mod 4 = 0 then 1 else 0)"
  proof -
    have "(y - 1969 + 1) mod 4 = (y + 4 * (- 492)) mod 4" by simp
    also have "\<dots> = y mod 4" by (rule mod_mult_self2)
    finally show ?thesis using div_step [of 4 "y - 1969"] by (simp add: algebra_simps)
  qed
  have b: "(y + 1 - 1901) div 100 = (y - 1901) div 100 + (if y mod 100 = 0 then 1 else 0)"
  proof -
    have "(y - 1901 + 1) mod 100 = (y + 100 * (- 19)) mod 100" by simp
    also have "\<dots> = y mod 100" by (rule mod_mult_self2)
    finally show ?thesis using div_step [of 100 "y - 1901"] by (simp add: algebra_simps)
  qed
  have c: "(y + 1 - 1601) div 400 = (y - 1601) div 400 + (if y mod 400 = 0 then 1 else 0)"
  proof -
    have "(y - 1601 + 1) mod 400 = (y + 400 * (- 4)) mod 400" by simp
    also have "\<dots> = y mod 400" by (rule mod_mult_self2)
    finally show ?thesis using div_step [of 400 "y - 1601"] by (simp add: algebra_simps)
  qed
  have m1: "y mod 100 = 0 \<Longrightarrow> y mod 4 = 0"
    using mod_mod_cancel [of 4 100 y] by simp
  have m2: "y mod 400 = 0 \<Longrightarrow> y mod 100 = 0"
    using mod_mod_cancel [of 100 400 y] by simp
  show ?thesis
    unfolding DayFromYear_def DaysInYear_def a b c using m1 m2 by auto
qed

lemma Day_MakeDate: "0 \<le> tm \<Longrightarrow> tm < msPerDay \<Longrightarrow> Day (MakeDate d tm) = d"
  unfolding Day_def MakeDate_def msPerDay_def
  using int_div_pos_eq [of "d * 86400000 + tm" 86400000 d tm] by (simp add: mult.commute)

lemma TimeWithinDay_MakeDate: "0 \<le> tm \<Longrightarrow> tm < msPerDay \<Longrightarrow> TimeWithinDay (MakeDate d tm) = tm"
  unfolding TimeWithinDay_def MakeDate_def msPerDay_def
  using int_mod_pos_eq [of "d * 86400000 + tm" 86400000 d tm] by (simp add: mult.commute)

lemma TimeWithinDay_range: "0 \<le> TimeWithinDay t \<and> TimeWithinDay t < msPerDay"
  by (simp add: TimeWithinDay_def msPerDay_def)

lemma Day_TimeWithinDay: "t = Day t * msPerDay + TimeWithinDay t"
  by (simp add: Day_def TimeWithinDay_def)

lemma DaysInYear_cases: "DaysInYear y = 365 \<or> DaysInYear y = 366"
  by (simp add: DaysInYear_def)

lemma DayWithinYear_range:
  "0 \<le> DayWithinYear t \<and> DayWithinYear t < 365 + InLeapYear t"
  using YearFromTime_bounds [of t] DayFromYear_Suc [of "YearFromTime t"]
    DaysInYear_cases [of "YearFromTime t"]
  by (auto simp: DayWithinYear_def InLeapYear_def)

lemma InLeapYear_cases: "InLeapYear t = 0 \<or> InLeapYear t = 1"
  by (simp add: InLeapYear_def)

lemma MonthFromTime_range: "0 \<le> MonthFromTime t \<and> MonthFromTime t \<le> 11"
  by (simp add: MonthFromTime_def Let_def)

lemma month_table:
  "month_start (InLeapYear t) (MonthFromTime t) + DateFromTime t - 1 = DayWithinYear t"
  unfolding DateFromTime_def Let_def month_start_def
  by (simp add: MonthFromTime_def Let_def)

lemma DateFromTime_range: "1 \<le> DateFromTime t \<and> DateFromTime t \<le> 31"
  using DayWithinYear_range [of t] InLeapYear_cases [of t]
  unfolding DateFromTime_def MonthFromTime_def Let_def
  by (auto split: if_splits)

lemma MakeDay_current:
  "MakeDay (YearFromTime t) (MonthFromTime t) date = Day t - DateFromTime t + date"
proof -
  have r: "0 \<le> MonthFromTime t" "MonthFromTime t < 12"
    using MonthFromTime_range [of t] by simp_all
  then have m: "MonthFromTime t div 12 = 0" "MonthFromTime t mod 12 = MonthFromTime t"
    by simp_all
  have "MakeDay (YearFromTime t) (MonthFromTime t) date =
      DayFromYear (YearFromTime t) + month_start (InLeapYear t) (MonthFromTime t) + date - 1"
    by (simp add: MakeDay_def Let_def m InLeapYear_def)
  with month_table [of t] show ?thesis by (simp add: DayWithinYear_def)
qed

lemma WeekDay_range: "0 \<le> WeekDay t \<and> WeekDay t \<le> 6"
  by (simp add: WeekDay_def)

lemma Day_mult: "Day (d * msPerDay) = d"
  using Day_MakeDate [of 0 d] by (simp add: MakeDate_def msPerDay_def)

lemma DayFromYear_mono: "a \<le> b \<Longrightarrow> DayFromYear a \<le> DayFromYear b"
proof (induction b rule: int_ge_induct)
  case base
  show ?case by simp
next
  case (step i)
  then show ?case
    using DayFromYear_Suc [of i] DaysInYear_cases [of i] by linarith
qed

lemma YearFromTime_unique:
  assumes "DayFromYear y \<le> Day t" and "Day t < DayFromYear (y + 1)"
  shows "YearFromTime t = y"
proof (rule ccontr)
  assume n: "YearFromTime t \<noteq> y"
  have b: "DayFromYear (YearFromTime t) \<le> Day t" "Day t < DayFromYear (YearFromTime t + 1)"
    using YearFromTime_bounds [of t] by simp_all
  show False
  proof (cases "YearFromTime t < y")
    case True
    then have "DayFromYear (YearFromTime t + 1) \<le> DayFromYear y"
      by (intro DayFromYear_mono) simp
    with b assms show False by linarith
  next
    case False
    with n have "DayFromYear (y + 1) \<le> DayFromYear (YearFromTime t)"
      by (intro DayFromYear_mono) simp
    with b assms show False by linarith
  qed
qed

lemma month_start_range:
  "0 \<le> m \<Longrightarrow> m \<le> 11 \<Longrightarrow> (l = 0 \<or> l = 1) \<Longrightarrow> 0 \<le> month_start l m \<and> month_start l m < 365 + l"
  by (auto simp: month_start_def)

lemma first_of_month:
  assumes m: "0 \<le> m" "m \<le> 11" and d: "Day t = DayFromYear y + month_start (if DaysInYear y = 366 then 1 else 0) m"
  shows "YearFromTime t = y \<and> MonthFromTime t = m \<and> DateFromTime t = 1"
proof -
  define l :: int where "l = (if DaysInYear y = 366 then 1 else 0)"
  have l: "l = 0 \<or> l = 1" by (simp add: l_def)
  have s: "0 \<le> month_start l m" "month_start l m < 365 + l"
    using month_start_range [OF m l] by simp_all
  have n: "DayFromYear (y + 1) = DayFromYear y + 365 + l"
    using DayFromYear_Suc [of y] DaysInYear_cases [of y] by (auto simp: l_def)
  have y: "YearFromTime t = y"
    using d s n by (intro YearFromTime_unique) (simp_all add: l_def)
  have il: "InLeapYear t = l" by (simp add: InLeapYear_def y l_def)
  have dw: "DayWithinYear t = month_start l m" by (simp add: DayWithinYear_def y d l_def)
  have c: "m = 0 \<or> m = 1 \<or> m = 2 \<or> m = 3 \<or> m = 4 \<or> m = 5 \<or> m = 6 \<or> m = 7 \<or> m = 8
      \<or> m = 9 \<or> m = 10 \<or> m = 11" using m by presburger
  have mo: "MonthFromTime t = m"
    unfolding MonthFromTime_def Let_def il dw using c l
    by (elim disjE) (simp_all add: month_start_def)
  have "DateFromTime t = 1"
    unfolding DateFromTime_def Let_def il dw mo using c l
    by (elim disjE) (simp_all add: month_start_def)
  with y mo show ?thesis by simp
qed

lemma MakeDay_first:
  assumes "t = MakeDay year month 1 * msPerDay"
  shows "YearFromTime t = year + month div 12 \<and> MonthFromTime t = month mod 12 \<and> DateFromTime t = 1
     \<and> TimeWithinDay t = 0"
proof -
  have d: "Day t = MakeDay year month 1" by (simp add: assms Day_mult)
  have "YearFromTime t = year + month div 12 \<and> MonthFromTime t = month mod 12 \<and> DateFromTime t = 1"
    by (rule first_of_month) (simp_all add: d MakeDay_def Let_def)
  moreover have "TimeWithinDay t = 0" by (simp add: assms TimeWithinDay_def)
  ultimately show ?thesis by simp
qed

lemma MakeDay_date: "MakeDay year month date = MakeDay year month 1 + date - 1"
  by (simp add: MakeDay_def Let_def)

lemma month_next: "Day t < MakeDay (YearFromTime t) (MonthFromTime t + 1) 1"
proof -
  define m where "m = MonthFromTime t"
  define l where "l = InLeapYear t"
  define y where "y = YearFromTime t"
  have l: "l = 0 \<or> l = 1" using InLeapYear_cases [of t] by (simp add: l_def)
  have r: "0 \<le> DayWithinYear t" "DayWithinYear t < 365 + l"
    using DayWithinYear_range [of t] by (simp_all add: l_def)
  have dy: "Day t = DayFromYear y + DayWithinYear t" by (simp add: DayWithinYear_def y_def)
  have il: "(if DaysInYear y = 366 then 1 else 0) = l" by (simp add: l_def InLeapYear_def y_def)
  show ?thesis
  proof (cases "m = 11")
    case True
    have "MakeDay y (m + 1) 1 = DayFromYear (y + 1)"
      by (simp add: MakeDay_def Let_def True month_start_def)
    also have "\<dots> = DayFromYear y + 365 + l"
      using DayFromYear_Suc [of y] DaysInYear_cases [of y] il by (auto split: if_splits)
    finally show ?thesis using dy r by (simp add: m_def y_def)
  next
    case False
    then have m: "0 \<le> m" "m \<le> 10" using MonthFromTime_range [of t] by (simp_all add: m_def)
    then have dm: "(m + 1) div 12 = 0" "(m + 1) mod 12 = m + 1" by simp_all
    have md: "MakeDay y (m + 1) 1 = DayFromYear y + month_start l (m + 1)"
      by (simp add: MakeDay_def Let_def dm il)
    have "DayWithinYear t < month_start l (m + 1)"
      using m r l unfolding m_def MonthFromTime_def Let_def l_def [symmetric] month_start_def
      by (auto split: if_splits)
    with md dy show ?thesis by (simp add: m_def y_def)
  qed
qed

section \<open>The windows in a zone where every local time occurs\<close>

lemma LocalTime_UTC: "roundtrips z \<Longrightarrow> LocalTime z (UTC z x) = x"
  by (simp add: roundtrips_def)

lemma setHours_local:
  "roundtrips z \<Longrightarrow>
     LocalTime z (setHours z t hour minute sec ms) = MakeDate (Day (LocalTime z t)) (MakeTime hour minute sec ms)"
  by (simp add: setHours_def LocalTime_UTC)

lemma setHours_midnight: "roundtrips z \<Longrightarrow> LocalTime z (setHours z t 0 0 0 0) = Day (LocalTime z t) * msPerDay"
  by (simp add: setHours_local MakeDate_def MakeTime_def)

lemma setHours_last:
  "roundtrips z \<Longrightarrow> LocalTime z (setHours z t 23 59 59 999) = Day (LocalTime z t) * msPerDay + (msPerDay - 1)"
  by (simp add: setHours_local MakeDate_def MakeTime_def msPerDay_def)

lemma setDate_shift:
  "roundtrips z \<Longrightarrow>
     LocalTime z (setDate z t (getDate z t + k))
       = MakeDate (Day (LocalTime z t) + k) (TimeWithinDay (LocalTime z t))"
  by (simp add: setDate_def Let_def getDate_def MakeDay_current LocalTime_UTC)

lemma Day_setDate_shift:
  "roundtrips z \<Longrightarrow> Day (LocalTime z (setDate z t (getDate z t + k))) = Day (LocalTime z t) + k"
  using TimeWithinDay_range [of "LocalTime z t"] by (simp add: setDate_shift Day_MakeDate)

lemma weekStart_eq:
  assumes "roundtrips z"
  shows "LocalTime z (weekStart z now)
     = (Day (LocalTime z now) - (WeekDay (LocalTime z now) + 6) mod 7) * msPerDay"
proof -
  define w where "w = WeekDay (LocalTime z now)"
  define k where "k = - w + (if w = 0 then - 6 else 1)"
  have k: "k = - ((w + 6) mod 7)"
    using WeekDay_range [of "LocalTime z now"] unfolding k_def w_def
    by (auto simp: mod_pos_pos_trivial) presburger
  have e: "getDate z now - getDay z now + (if getDay z now = 0 then - 6 else 1) = getDate z now + k"
    by (simp add: k_def w_def getDay_def)
  have "weekStart z now = setHours z (setDate z now (getDate z now + k)) 0 0 0 0"
    by (simp only: weekStart_def Let_def e)
  then have "LocalTime z (weekStart z now) = Day (LocalTime z (setDate z now (getDate z now + k))) * msPerDay"
    by (simp only: setHours_midnight [OF assms])
  also have "\<dots> = (Day (LocalTime z now) + k) * msPerDay"
    by (simp only: Day_setDate_shift [OF assms])
  finally show ?thesis by (simp add: k w_def)
qed

lemma WeekDay_weekStart: "roundtrips z \<Longrightarrow> WeekDay (LocalTime z (weekStart z now)) = 1"
proof -
  assume r: "roundtrips z"
  define d where "d = Day (LocalTime z now)"
  have "(d - ((d + 4) mod 7 + 6) mod 7 + 4) mod 7 = 1" by presburger
  then show ?thesis by (simp add: weekStart_eq [OF r] WeekDay_def Day_mult d_def)
qed

lemma weekEnd_eq:
  assumes "roundtrips z"
  shows "LocalTime z (weekEnd z now) = LocalTime z (weekStart z now) + 7 * msPerDay - 1"
proof -
  have d: "Day (LocalTime z (weekStart z now)) * msPerDay = LocalTime z (weekStart z now)"
    by (simp add: weekStart_eq [OF assms] Day_mult)
  have "LocalTime z (weekEnd z now)
      = Day (LocalTime z (setDate z (weekStart z now) (getDate z (weekStart z now) + 6))) * msPerDay
        + (msPerDay - 1)"
    by (simp only: weekEnd_def Let_def setHours_last [OF assms])
  also have "\<dots> = (Day (LocalTime z (weekStart z now)) + 6) * msPerDay + (msPerDay - 1)"
    by (simp only: Day_setDate_shift [OF assms])
  finally show ?thesis using d by (simp add: algebra_simps)
qed

lemma weekStart_le:
  assumes "roundtrips z"
  shows "LocalTime z (weekStart z now) \<le> LocalTime z now
     \<and> LocalTime z now < LocalTime z (weekStart z now) + 7 * msPerDay"
proof -
  define n where "n = LocalTime z now"
  define m where "m = (WeekDay n + 6) mod 7"
  have m: "0 \<le> m" "m \<le> 6" by (simp_all add: m_def)
  have w: "LocalTime z (weekStart z now) = Day n * 86400000 - m * 86400000"
    by (simp add: weekStart_eq [OF assms] m_def n_def msPerDay_def algebra_simps)
  have n: "n = Day n * 86400000 + TimeWithinDay n"
    using Day_TimeWithinDay [of n] by (simp add: msPerDay_def)
  have r: "0 \<le> TimeWithinDay n" "TimeWithinDay n < 86400000"
    using TimeWithinDay_range [of n] by (simp_all add: msPerDay_def)
  have "LocalTime z (weekStart z now) \<le> n" using w n r m by linarith
  moreover have "n < LocalTime z (weekStart z now) + 7 * 86400000" using w n r m by linarith
  ultimately show ?thesis by (simp add: msPerDay_def n_def)
qed

lemma today_window:
  assumes "roundtrips z"
  shows "LocalTime z (todayStart z now) = Day (LocalTime z now) * msPerDay
   \<and> LocalTime z (todayEnd z now) = LocalTime z (todayStart z now) + msPerDay - 1
   \<and> LocalTime z (todayStart z now) \<le> LocalTime z now
   \<and> LocalTime z now \<le> LocalTime z (todayEnd z now)"
proof -
  define n where "n = LocalTime z now"
  have n: "n = Day n * msPerDay + TimeWithinDay n" by (rule Day_TimeWithinDay)
  have s: "LocalTime z (todayStart z now) = Day n * msPerDay"
    by (simp add: todayStart_def setHours_midnight [OF assms] n_def)
  have e: "LocalTime z (todayEnd z now) = Day n * msPerDay + (msPerDay - 1)"
    by (simp add: todayEnd_def setHours_last [OF assms] n_def)
  show ?thesis unfolding n_def [symmetric] using n s e TimeWithinDay_range [of n] by linarith
qed

lemma week_window:
  assumes "roundtrips z"
  shows "WeekDay (LocalTime z (weekStart z now)) = 1 \<and> TimeWithinDay (LocalTime z (weekStart z now)) = 0
   \<and> LocalTime z (weekStart z now) \<le> LocalTime z now
   \<and> LocalTime z now \<le> LocalTime z (weekEnd z now)
   \<and> LocalTime z (weekEnd z now) = LocalTime z (weekStart z now) + 7 * msPerDay - 1
   \<and> (WeekDay (LocalTime z now) = 0 \<longrightarrow>
        LocalTime z (weekStart z now) = LocalTime z (todayStart z now) - 6 * msPerDay)"
proof -
  have "TimeWithinDay (LocalTime z (weekStart z now)) = 0"
    by (simp add: weekStart_eq [OF assms] TimeWithinDay_def)
  moreover have "WeekDay (LocalTime z now) = 0 \<longrightarrow>
      LocalTime z (weekStart z now) = LocalTime z (todayStart z now) - 6 * msPerDay"
    by (simp add: weekStart_eq [OF assms] todayStart_def setHours_midnight [OF assms] algebra_simps)
  moreover have "LocalTime z now \<le> LocalTime z (weekEnd z now)"
    using weekStart_le [OF assms, of now] by (simp add: weekEnd_eq [OF assms])
  ultimately show ?thesis
    using weekStart_le [OF assms, of now]
    by (simp add: WeekDay_weekStart [OF assms] weekEnd_eq [OF assms])
qed

lemma monthStart_eq:
  assumes "roundtrips z" and "\<not> (0 \<le> getFullYear z now \<and> getFullYear z now \<le> 99)"
  shows "LocalTime z (monthStart z now) = MakeDay (getFullYear z now) (getMonth z now) 1 * msPerDay"
  using assms(2)
  by (auto simp: monthStart_def new_Date_def MakeDate_def MakeTime_def LocalTime_UTC [OF assms(1)])

lemma monthEnd_eq:
  assumes "roundtrips z" and "\<not> (0 \<le> getFullYear z now \<and> getFullYear z now \<le> 99)"
  shows "LocalTime z (monthEnd z now) + 1 = MakeDay (getFullYear z now) (getMonth z now + 1) 1 * msPerDay"
proof -
  define d where "d = MakeDay (getFullYear z now) (getMonth z now + 1) 0"
  have "LocalTime z (new_Date z (getFullYear z now) (getMonth z now + 1) 0) = d * msPerDay"
    using assms(2)
    by (auto simp: new_Date_def MakeDate_def MakeTime_def d_def LocalTime_UTC [OF assms(1)])
  then have "LocalTime z (monthEnd z now) = d * msPerDay + (msPerDay - 1)"
    by (simp add: monthEnd_def setHours_last [OF assms(1)] Day_mult)
  moreover have "MakeDay (getFullYear z now) (getMonth z now + 1) 1 = d + 1"
    using MakeDay_date [of "getFullYear z now" "getMonth z now + 1" 0] by (simp add: d_def)
  ultimately show ?thesis by (simp add: algebra_simps)
qed

lemma month_window:
  assumes "roundtrips z" and "\<not> (0 \<le> getFullYear z now \<and> getFullYear z now \<le> 99)"
  shows "getDate z (monthStart z now) = 1 \<and> getMonth z (monthStart z now) = getMonth z now
     \<and> getFullYear z (monthStart z now) = getFullYear z now
     \<and> TimeWithinDay (LocalTime z (monthStart z now)) = 0
     \<and> LocalTime z (monthStart z now) \<le> LocalTime z now
     \<and> LocalTime z now \<le> LocalTime z (monthEnd z now)
     \<and> DateFromTime (LocalTime z (monthEnd z now) + 1) = 1
     \<and> TimeWithinDay (LocalTime z (monthEnd z now) + 1) = 0
     \<and> MonthFromTime (LocalTime z (monthEnd z now) + 1) = (getMonth z now + 1) mod 12
     \<and> YearFromTime (LocalTime z (monthEnd z now) + 1) = getFullYear z now + (getMonth z now + 1) div 12"
proof -
  define n where "n = LocalTime z now"
  define Y where "Y = YearFromTime n"
  define M where "M = MonthFromTime n"
  have g: "getFullYear z now = Y" "getMonth z now = M"
    by (simp_all add: getFullYear_def getMonth_def Y_def M_def n_def)
  have r: "0 \<le> M" "M < 12" using MonthFromTime_range [of n] by (simp_all add: M_def)
  then have m: "M div 12 = 0" "M mod 12 = M" by simp_all
  have s: "LocalTime z (monthStart z now) = MakeDay Y M 1 * msPerDay"
    using monthStart_eq [OF assms] by (simp add: g)
  have e: "LocalTime z (monthEnd z now) + 1 = MakeDay Y (M + 1) 1 * msPerDay"
    using monthEnd_eq [OF assms] by (simp add: g)
  have 1: "YearFromTime (LocalTime z (monthStart z now)) = Y
      \<and> MonthFromTime (LocalTime z (monthStart z now)) = M
      \<and> DateFromTime (LocalTime z (monthStart z now)) = 1
      \<and> TimeWithinDay (LocalTime z (monthStart z now)) = 0"
    using MakeDay_first [OF s] m by simp
  have 2: "YearFromTime (LocalTime z (monthEnd z now) + 1) = Y + (M + 1) div 12
      \<and> MonthFromTime (LocalTime z (monthEnd z now) + 1) = (M + 1) mod 12
      \<and> DateFromTime (LocalTime z (monthEnd z now) + 1) = 1
      \<and> TimeWithinDay (LocalTime z (monthEnd z now) + 1) = 0"
    using MakeDay_first [OF e] by simp
  have n: "n = Day n * 86400000 + TimeWithinDay n"
    using Day_TimeWithinDay [of n] by (simp add: msPerDay_def)
  have t: "0 \<le> TimeWithinDay n" "TimeWithinDay n < 86400000"
    using TimeWithinDay_range [of n] by (simp_all add: msPerDay_def)
  have "MakeDay Y M 1 \<le> Day n"
    using MakeDay_current [of n 1] DateFromTime_range [of n] by (simp add: Y_def M_def)
  then have "MakeDay Y M 1 * 86400000 \<le> Day n * 86400000" by simp
  then have 3: "LocalTime z (monthStart z now) \<le> n" using s n t by (simp add: msPerDay_def)
  have "Day n + 1 \<le> MakeDay Y (M + 1) 1"
    using month_next [of n] by (simp add: Y_def M_def)
  then have "(Day n + 1) * 86400000 \<le> MakeDay Y (M + 1) 1 * 86400000" by simp
  then have "n < LocalTime z (monthEnd z now) + 1" using e n t by (simp add: msPerDay_def algebra_simps)
  then have 4: "n \<le> LocalTime z (monthEnd z now)" by simp
  show ?thesis
    unfolding g using 1 2 3 4 by (simp add: getDate_def getMonth_def getFullYear_def n_def)
qed

text \<open>
  In a zone where every local time occurs, the bounds the code sends are, in local time:
  the midnight of the day of \<open>now\<close> and the last millisecond of that day; the Monday 00:00
  on or before \<open>now\<close>, six days earlier for a Sunday, and the last millisecond of the
  following Sunday; and, the year not being one of 0 to 99, the first of the month of
  \<open>now\<close> at 00:00 and the last millisecond of that month.
\<close>

lemma windows_in_local_time:
  assumes "roundtrips z"
  shows "LocalTime z (todayStart z now) = Day (LocalTime z now) * msPerDay
   \<and> LocalTime z (todayEnd z now) = LocalTime z (todayStart z now) + msPerDay - 1
   \<and> WeekDay (LocalTime z (weekStart z now)) = 1 \<and> TimeWithinDay (LocalTime z (weekStart z now)) = 0
   \<and> LocalTime z (weekStart z now) \<le> LocalTime z now
   \<and> LocalTime z now < LocalTime z (weekStart z now) + 7 * msPerDay
   \<and> LocalTime z (weekEnd z now) = LocalTime z (weekStart z now) + 7 * msPerDay - 1
   \<and> (WeekDay (LocalTime z now) = 0 \<longrightarrow>
        LocalTime z (weekStart z now) = LocalTime z (todayStart z now) - 6 * msPerDay)
   \<and> (\<not> (0 \<le> getFullYear z now \<and> getFullYear z now \<le> 99) \<longrightarrow>
        getDate z (monthStart z now) = 1 \<and> getMonth z (monthStart z now) = getMonth z now
        \<and> getFullYear z (monthStart z now) = getFullYear z now
        \<and> TimeWithinDay (LocalTime z (monthStart z now)) = 0
        \<and> DateFromTime (LocalTime z (monthEnd z now) + 1) = 1
        \<and> TimeWithinDay (LocalTime z (monthEnd z now) + 1) = 0
        \<and> MonthFromTime (LocalTime z (monthEnd z now) + 1) = (getMonth z now + 1) mod 12)"
  using today_window [OF assms, of now] week_window [OF assms, of now] weekStart_le [OF assms, of now]
    month_window [OF assms, of now]
  by blast


text \<open>
  On the day the offset changes the two bounds of the day are 23 hours less a millisecond
  apart: noon of 2024-03-31 UTC in the zone of central Europe.
\<close>

lemma short_day:
  "todayStart cet_zone 1711886400000 = 1711839600000
   \<and> todayEnd cet_zone 1711886400000 = 1711922399999
   \<and> todayEnd cet_zone 1711886400000 - todayStart cet_zone 1711886400000 = 82799999"
  by (simp add: todayStart_def todayEnd_def setHours_def LocalTime_def UTC_def cet_zone_def Day_def
      msPerDay_def MakeDate_def MakeTime_def)

section \<open>Properties of the statistics\<close>

lemma getTimeStats_zero:
  assumes "getTimeEntries (today_filters z now) sv = (r1, sv1)"
    and "getTimeEntries (week_filters z now) sv1 = (r2, sv2)"
    and "getTimeEntries (month_filters z now) sv2 = (r3, sv3)"
    and "isl r1 \<or> isl r2 \<or> isl r3"
  shows "getTimeStats getTimeEntries z now sv = (Inr zero_stats, sv3)"
  using assms by (auto simp: getTimeStats_def split: sum.splits)

text \<open>
  Claim C5. When one of the three list requests of \<open>getTimeStats\<close> is rejected, whichever
  it is, the promise of \<open>getTimeStats\<close> is fulfilled with the statistics that are all zero:
  the three durations and the three counts. The error does not reach the caller.
\<close>

theorem stats_zero_on_failure:
  "getTimeEntries (today_filters z now) sv = (r1, sv1) \<Longrightarrow>
   getTimeEntries (week_filters z now) sv1 = (r2, sv2) \<Longrightarrow>
   getTimeEntries (month_filters z now) sv2 = (r3, sv3) \<Longrightarrow>
   isl r1 \<or> isl r2 \<or> isl r3 \<Longrightarrow>
     fst (getTimeStats getTimeEntries z now sv) = Inr zero_stats
     \<and> today zero_stats = 0 \<and> this_week zero_stats = 0 \<and> this_month zero_stats = 0
     \<and> total_entries_today zero_stats = 0 \<and> total_entries_week zero_stats = 0
     \<and> total_entries_month zero_stats = 0"
  using getTimeStats_zero [of getTimeEntries z now sv r1 sv1 r2 sv2 r3 sv3]
  by (simp add: zero_stats_def)

theorem stats_zero_on_failure_witness:
  "flaky_list (week_filters utc_zone 1709467200000) 1 = (Inl (Error ''HTTP 500: Internal Server Error''), 2)
   \<and> getTimeStats flaky_list utc_zone 1709467200000 0 = (Inr zero_stats, 3)"
  using stats_zero_on_failure [of flaky_list utc_zone 1709467200000 0 "Inr empty_response" 1
      "Inl (Error ''HTTP 500: Internal Server Error'')" 2 "Inr empty_response" 3]
  by (simp add: flaky_list_def getTimeStats_def)

lemma getTimeStats_never_rejects: "\<not> isl (fst (getTimeStats getTimeEntries z now sv))"
  by (auto simp: getTimeStats_def split: prod.splits sum.splits)

lemma length_sorted_by: "length (sorted_by s rows) = length rows"
proof -
  have "length (filter (\<lambda>r. duration r = None) rows) + length (filter (\<lambda>r. duration r \<noteq> None) rows)
      = length rows"
    using sum_length_filter_compl [of "\<lambda>r. duration r = None" rows] by simp
  then show ?thesis
    by (auto simp: sorted_by_def split: option.splits sort_by.splits)
qed

lemma query_first_page:
  "page f = None \<Longrightarrow> limit f = Some 100 \<Longrightarrow>
     length (resp_entries (query w now owner f tbl)) = min 100 (length (filter (matches w owner f) tbl))"
  by (simp add: query_def Let_def clamp_def length_sorted_by)

lemma today_count:
  "total_entries_today (projr (fst (getTimeStats (list_endpoint w now_us owner) z now tbl)))
     = int (min 100 (length (filter (matches w owner (today_filters z now)) tbl)))"
  by (simp add: getTimeStats_def list_endpoint_def query_first_page today_filters_def no_filters_def)


lemma todayStart_noon:
  "todayStart utc_zone 43200000 = 0 \<and> todayEnd utc_zone 43200000 = 86399999"
  by (simp add: todayStart_def todayEnd_def setHours_def Day_def msPerDay_def MakeDate_def MakeTime_def
      LocalTime_def UTC_def utc_zone_def)

lemma busy_day_matches: "filter (matches example_wire 7 (today_filters utc_zone 43200000)) busy_day = busy_day"
proof -
  have "matches example_wire 7 (today_filters utc_zone 43200000) (busy_row i)" if "i < 101" for i
    using that
    by (simp add: matches_def today_filters_def no_filters_def todayStart_noon busy_row_def
        completed_row_def start_row_def in_date_range_def)
  then show ?thesis by (auto simp: busy_day_def filter_id_conv)
qed

lemma local_day_busy: "i < 101 \<Longrightarrow> local_day utc_zone (int i * 1000000) = 0"
proof -
  assume i: "i < 101"
  have "int i * 1000000 = (int i * 1000) * 1000" by simp
  then have "(int i * 1000000) div 1000 = int i * 1000" by (simp only: nonzero_mult_div_cancel_right)
  moreover have "(int i * 1000) div 86400000 = 0" using i by (intro div_pos_pos_trivial) simp_all
  ultimately show ?thesis
    by (simp add: local_day_def LocalTime_def utc_zone_def Day_def msPerDay_def)
qed

lemma busy_day_today: "started_today utc_zone 43200000 7 busy_day = busy_day"
proof -
  have n: "local_day utc_zone (43200000 * 1000) = 0"
    by (simp add: local_day_def LocalTime_def utc_zone_def Day_def msPerDay_def)
  have "user_id (busy_row i) = Some 7 \<and>
      (case start_time (busy_row i) of None \<Rightarrow> False
       | Some t \<Rightarrow> local_day utc_zone t = local_day utc_zone (43200000 * 1000))"
    if "i < 101" for i
    using that local_day_busy [of i] n by (simp add: busy_row_def completed_row_def start_row_def)
  then show ?thesis by (auto simp: busy_day_def started_today_def filter_id_conv)
qed

lemma busy_insert:
  "db_insert 200000000 (completed_row n 7 (int n * 1000000) (int n * 1000000 + 60000000)) (map busy_row [0..<n])
     = Inr (map busy_row [0..<Suc n])"
proof -
  let ?NEW = "completed_row n 7 (int n * 1000000) (int n * 1000000 + 60000000)"
  have c: "calculate_duration 200000000 ?NEW = Inr (busy_row n)"
    by (simp add: calculate_duration_def completed_row_def start_row_def cast_integer_def
        round_seconds_def usecs_per_sec_def busy_row_def)
  have k: "constraints (map busy_row [0..<n]) (busy_row n) = Inr ()"
    by (auto simp: constraints_def not_null_def chk_end_after_start_def time_entries_pkey_def
        idx_time_entries_user_running_def busy_row_def completed_row_def start_row_def)
  show ?thesis by (simp add: db_insert_def c k)
qed

lemma busy_reachable: "reachable (map busy_row [0..<n])"
proof (induction n)
  case 0
  show ?case by (simp add: reachable.empty)
next
  case (Suc n)
  from reachable.insert [OF Suc busy_insert] show ?case .
qed

text \<open>
  Claim C4, at an input where the code departs from it. The table \<open>busy_day\<close> is reachable
  and holds 101 entries of owner 7 that start on the day of \<open>now\<close>; \<open>getTimeStats\<close> asks
  for at most 100 entries of the day and reports the length of the page it gets, so it
  reports 100 entries for today. The client is in the zone UTC.
\<close>

theorem stats_count_capped:
  "reachable busy_day
   \<and> length (started_today utc_zone 43200000 7 busy_day) = 101
   \<and> total_entries_today
        (projr (fst (getTimeStats (list_endpoint example_wire 43200000000 7) utc_zone 43200000 busy_day)))
       = 100"
proof -
  have "reachable busy_day" unfolding busy_day_def by (rule busy_reachable)
  moreover have "length busy_day = 101" by (simp add: busy_day_def)
  ultimately show ?thesis
    by (simp add: today_count busy_day_matches busy_day_today)
qed





section \<open>Properties of the list hook\<close>

lemma loadTimeEntries_ok:
  "api_getTimeEntries api (filters h) sv = (Inr resp, sv') \<Longrightarrow>
     snd (loadTimeEntries api h sv) = sv'
     \<and> entries (list_state (fst (loadTimeEntries api h sv))) = resp_entries resp
     \<and> totalCount (list_state (fst (loadTimeEntries api h sv))) = resp_total_count resp
     \<and> totalDuration (list_state (fst (loadTimeEntries api h sv))) = resp_total_duration resp"
  by (simp add: loadTimeEntries_def)

lemma updateEntry_failed:
  "api_updateTimeEntry api eid data sv = (Inl e, sv1) \<Longrightarrow>
     updateEntry api z now eid data h sv =
       (Inl e, fst (loadTimeEntries api h sv1), snd (loadTimeEntries api h sv1))"
  by (simp add: updateEntry_def split: prod.splits)

lemma deleteEntry_failed:
  "api_deleteTimeEntry api eid sv = (Inl e, sv1) \<Longrightarrow>
     deleteEntry api z now eid h sv =
       (Inl e, fst (loadTimeEntries api (optimistic_delete eid h) sv1),
        snd (loadTimeEntries api (optimistic_delete eid h) sv1))"
  by (simp add: deleteEntry_def Let_def split: prod.splits)

lemma filters_optimistic: "filters (optimistic_delete eid h) = filters h"
  by (simp add: optimistic_delete_def)

text \<open>
  Claim C9. When the request of \<open>updateEntry\<close> or of \<open>deleteEntry\<close> fails with \<open>e\<close>, the
  promise of the hook is rejected with \<open>e\<close>, and the hook and the server are left as
  \<open>loadTimeEntries\<close> leaves them: the list is fetched again with the filters of the hook.
  When that fetch succeeds, the entries and the totals of the hook are those of the
  response, whatever the hook held, the optimistic removal included.
\<close>

theorem failed_command_refetches:
  "(api_updateTimeEntry api eid data sv = (Inl e, sv1) \<longrightarrow>
      fst (updateEntry api z now eid data h sv) = Inl e
      \<and> snd (updateEntry api z now eid data h sv) = loadTimeEntries api h sv1
      \<and> (api_getTimeEntries api (filters h) sv1 = (Inr resp, sv2) \<longrightarrow>
           snd (snd (updateEntry api z now eid data h sv)) = sv2
           \<and> entries (list_state (fst (snd (updateEntry api z now eid data h sv)))) = resp_entries resp
           \<and> totalCount (list_state (fst (snd (updateEntry api z now eid data h sv)))) = resp_total_count resp
           \<and> totalDuration (list_state (fst (snd (updateEntry api z now eid data h sv))))
               = resp_total_duration resp))
   \<and> (api_deleteTimeEntry api eid sv = (Inl e, sv1) \<longrightarrow>
      fst (deleteEntry api z now eid h sv) = Inl e
      \<and> snd (deleteEntry api z now eid h sv) = loadTimeEntries api (optimistic_delete eid h) sv1
      \<and> (api_getTimeEntries api (filters h) sv1 = (Inr resp, sv2) \<longrightarrow>
           snd (snd (deleteEntry api z now eid h sv)) = sv2
           \<and> entries (list_state (fst (snd (deleteEntry api z now eid h sv)))) = resp_entries resp
           \<and> totalCount (list_state (fst (snd (deleteEntry api z now eid h sv)))) = resp_total_count resp
           \<and> totalDuration (list_state (fst (snd (deleteEntry api z now eid h sv))))
               = resp_total_duration resp))"
proof (intro conjI impI)
  assume u: "api_updateTimeEntry api eid data sv = (Inl e, sv1)"
  note f = updateEntry_failed [OF u, where z = z and now = now and h = h]
  show "fst (updateEntry api z now eid data h sv) = Inl e" by (simp add: f)
  show "snd (updateEntry api z now eid data h sv) = loadTimeEntries api h sv1" by (simp add: f)
  assume g: "api_getTimeEntries api (filters h) sv1 = (Inr resp, sv2)"
  note l = loadTimeEntries_ok [OF g]
  show "snd (snd (updateEntry api z now eid data h sv)) = sv2" by (simp add: f l)
  show "entries (list_state (fst (snd (updateEntry api z now eid data h sv)))) = resp_entries resp"
    by (simp add: f l)
  show "totalCount (list_state (fst (snd (updateEntry api z now eid data h sv)))) = resp_total_count resp"
    by (simp add: f l)
  show "totalDuration (list_state (fst (snd (updateEntry api z now eid data h sv)))) = resp_total_duration resp"
    by (simp add: f l)
next
  assume d: "api_deleteTimeEntry api eid sv = (Inl e, sv1)"
  note f = deleteEntry_failed [OF d, where z = z and now = now and h = h]
  show "fst (deleteEntry api z now eid h sv) = Inl e" by (simp add: f)
  show "snd (deleteEntry api z now eid h sv) = loadTimeEntries api (optimistic_delete eid h) sv1"
    by (simp add: f)
  assume g: "api_getTimeEntries api (filters h) sv1 = (Inr resp, sv2)"
  then have "api_getTimeEntries api (filters (optimistic_delete eid h)) sv1 = (Inr resp, sv2)"
    by (simp add: filters_optimistic)
  note l = loadTimeEntries_ok [OF this]
  show "snd (snd (deleteEntry api z now eid h sv)) = sv2" by (simp add: f l)
  show "entries (list_state (fst (snd (deleteEntry api z now eid h sv)))) = resp_entries resp"
    by (simp add: f l)
  show "totalCount (list_state (fst (snd (deleteEntry api z now eid h sv)))) = resp_total_count resp"
    by (simp add: f l)
  show "totalDuration (list_state (fst (snd (deleteEntry api z now eid h sv)))) = resp_total_duration resp"
    by (simp add: f l)
qed

theorem failed_command_refetches_witness:
  "api_deleteTimeEntry failing_writes_api ''e1'' 0 = (Inl (Error ''Request failed''), 1)
   \<and> entries (list_state (optimistic_delete ''e1'' example_list)) = []
   \<and> fst (deleteEntry failing_writes_api utc_zone 0 ''e1'' example_list 0) = Inl (Error ''Request failed'')
   \<and> entries (list_state (fst (snd (deleteEntry failing_writes_api utc_zone 0 ''e1'' example_list 0))))
        = [example_entry]
   \<and> snd (snd (deleteEntry failing_writes_api utc_zone 0 ''e1'' example_list 0)) = 2
   \<and> fst (updateEntry failing_writes_api utc_zone 0 ''e1'' example_patch example_list 0)
        = Inl (Error ''Request failed'')
   \<and> snd (snd (updateEntry failing_writes_api utc_zone 0 ''e1'' example_patch example_list 0)) = 2"
  using failed_command_refetches [of failing_writes_api "''e1''" example_patch 0
      "Error ''Request failed''" 1 utc_zone 0 example_list authoritative_response 2]
  by (simp add: failing_writes_api_def refusing_api_def optimistic_delete_def example_list_def
      example_entry_def loadTimeEntries_def authoritative_response_def)

section \<open>Causality of the stored times\<close>

lemma calculate_duration_times:
  "calculate_duration now NEW = Inr r \<Longrightarrow>
     end_time r = end_time NEW \<and> start_time r = start_time NEW"
  by (auto simp: calculate_duration_def split: option.splits sum.splits)

lemma constraints_violation:
  "start_time r = Some s \<Longrightarrow> end_time r = Some e \<Longrightarrow> e \<le> s \<Longrightarrow> isl (constraints others r)"
  by (simp add: constraints_def chk_end_after_start_def split: sum.splits)

lemma db_insert_rejects:
  assumes "start_time NEW = Some s" and "end_time NEW = Some e" and "e \<le> s"
  shows "isl (db_insert now NEW tbl)"
proof (cases "calculate_duration now NEW")
  case (Inl err)
  then show ?thesis by (simp add: db_insert_def)
next
  case (Inr r)
  with assms calculate_duration_times [OF Inr] have "isl (constraints tbl r)"
    by (intro constraints_violation [of r s e]) simp_all
  with Inr show ?thesis by (auto simp: db_insert_def split: sum.splits)
qed

lemma db_update_rejects:
  assumes "filter (\<lambda>x. entry_id x = rid) tbl = old # rest"
    and "start_time (upd old) = Some s" and "end_time (upd old) = Some e" and "e \<le> s"
  shows "isl (db_update now rid upd tbl)"
proof (cases "calculate_duration now (upd old)")
  case (Inl err)
  with assms(1) show ?thesis by (simp add: db_update_def)
next
  case (Inr r)
  let ?r = "update_updated_at_column now r"
  from assms calculate_duration_times [OF Inr]
  have "isl (constraints (filter (\<lambda>x. entry_id x \<noteq> rid) tbl) ?r)"
    by (intro constraints_violation [of ?r s e]) (simp_all add: update_updated_at_column_def)
  with Inr assms(1) show ?thesis by (auto simp: db_update_def Let_def split: sum.splits)
qed

lemma end_before_start_parsed:
  "st \<noteq> [] \<Longrightarrow> en \<noteq> [] \<Longrightarrow> date_parse st = Some a \<Longrightarrow> date_parse en = Some b \<Longrightarrow> b \<le> a \<Longrightarrow>
     end_before_start date_parse (Some st) (Some en)"
  by (simp add: end_before_start_def)

lemma POST_rejects:
  "authorization req = Some auth \<Longrightarrow> json req = Some body \<Longrightarrow>
   end_before_start date_parse (cr_start_time body) (cr_end_time body) \<Longrightarrow>
     POST date_parse fetch req sv = (json_error 400 ''End time must be after start time'', sv)"
  by (simp add: POST_def)

lemma PATCH_rejects:
  "authorization req = Some auth \<Longrightarrow> json req = Some body \<Longrightarrow>
   end_before_start date_parse (ur_start_time body) (ur_end_time body) \<Longrightarrow>
     PATCH date_parse fetch eid req sv = (json_error 400 ''End time must be after start time'', sv)"
  by (simp add: PATCH_def)

lemma backend_create_rejects:
  "auth_owner w auth = Some owner \<Longrightarrow> read_ts w (cr_start_time body) = Given s \<Longrightarrow>
   read_ts w (cr_end_time body) = Given e \<Longrightarrow> e \<le> s \<Longrightarrow>
     backend_create w now rid auth body tbl = (Inr (json_error 400 ''Validation failed''), tbl)"
  by (simp add: backend_create_def)

lemma backend_update_rejects:
  "auth_owner w auth = Some owner \<Longrightarrow> uuid_of w eid = Some rid \<Longrightarrow>
   find (\<lambda>x. entry_id x = rid) tbl = Some old \<Longrightarrow> user_id old = Some owner \<Longrightarrow>
   start_time (merge_patch w patch old) = Some s \<Longrightarrow> end_time (merge_patch w patch old) = Some e \<Longrightarrow>
   e \<le> s \<Longrightarrow>
     backend_update w now auth eid patch tbl = (Inr (json_error 400 ''Validation failed''), tbl)"
  by (simp add: backend_update_def chk_end_after_start_def)

lemma create_400:
  assumes "authorization req = Some auth" and "json req = Some body"
    and "auth_owner w auth = Some owner" and "read_ts w (cr_start_time body) = Given s"
    and "read_ts w (cr_end_time body) = Given e" and "e \<le> s"
  shows "status (fst (POST date_parse (backend_create w now rid) req tbl)) = 400
     \<and> snd (POST date_parse (backend_create w now rid) req tbl) = tbl"
proof (cases "end_before_start date_parse (cr_start_time body) (cr_end_time body)")
  case True
  from POST_rejects [where fetch = "backend_create w now rid" and sv = tbl, OF assms(1,2) True]
  show ?thesis by (simp add: json_error_def)
next
  case False
  with assms(1,2) backend_create_rejects [OF assms(3-6)] show ?thesis
    by (simp add: POST_def json_error_def ok_def)
qed

lemma update_400:
  assumes "authorization req = Some auth" and "json req = Some patch"
    and "auth_owner w auth = Some owner" and "uuid_of w eid = Some rid"
    and "find (\<lambda>x. entry_id x = rid) tbl = Some old" and "user_id old = Some owner"
    and "start_time (merge_patch w patch old) = Some s" and "end_time (merge_patch w patch old) = Some e"
    and "e \<le> s"
  shows "status (fst (PATCH date_parse (backend_update w now) eid req tbl)) = 400
     \<and> snd (PATCH date_parse (backend_update w now) eid req tbl) = tbl"
proof (cases "end_before_start date_parse (ur_start_time patch) (ur_end_time patch)")
  case True
  from PATCH_rejects [where fetch = "backend_update w now" and sv = tbl and eid = eid, OF assms(1,2) True]
  show ?thesis by (simp add: json_error_def)
next
  case False
  with assms(1,2) backend_update_rejects [OF assms(3-9)] show ?thesis
    by (simp add: PATCH_def json_error_def ok_def)
qed

lemma reachable_causal:
  "reachable tbl \<Longrightarrow> r \<in> set tbl \<Longrightarrow> end_time r = Some e \<Longrightarrow> \<exists>s. start_time r = Some s \<and> s < e"
proof -
  assume "reachable tbl" "r \<in> set tbl" and e: "end_time r = Some e"
  then have "duration_derived r" using reachable_derived by blast
  with e show ?thesis by (simp add: duration_derived_def split: option.splits)
qed

text \<open>
  Claim C2. Every row of a reachable table that has an \<open>end_time\<close> has a \<open>start_time\<close>
  strictly before it, and the table refuses the insert and the update of a row whose
  \<open>end_time\<close> is not after its \<open>start_time\<close>. The routes answer 400, without calling the
  backend, when the body carries both times and the end is not after the start. Through
  the routes and the backend, an authorised create whose \<open>end_time\<close> is not after its
  \<open>start_time\<close>, and an authorised update of an own entry whose merged result has an
  \<open>end_time\<close> not after its \<open>start_time\<close>, are answered with 400 and leave the table as it
  was; equal times are among them.
\<close>

theorem causality_enforced:
  "(reachable tbl \<longrightarrow> r \<in> set tbl \<longrightarrow> end_time r = Some e \<longrightarrow> (\<exists>s. start_time r = Some s \<and> s < e))
   \<and> (start_time NEW = Some s \<longrightarrow> end_time NEW = Some e' \<longrightarrow> e' \<le> s \<longrightarrow> isl (db_insert now NEW tbl))
   \<and> (filter (\<lambda>x. entry_id x = rid) tbl = old # rest \<longrightarrow> start_time (upd old) = Some s \<longrightarrow>
        end_time (upd old) = Some e' \<longrightarrow> e' \<le> s \<longrightarrow> isl (db_update now rid upd tbl))
   \<and> (authorization req = Some auth \<longrightarrow> json req = Some body \<longrightarrow>
        cr_start_time body = Some st \<longrightarrow> cr_end_time body = Some en \<longrightarrow> st \<noteq> [] \<longrightarrow> en \<noteq> [] \<longrightarrow>
        date_parse st = Some a \<longrightarrow> date_parse en = Some b \<longrightarrow> b \<le> a \<longrightarrow>
          status (fst (POST date_parse fetch req sv)) = 400 \<and> snd (POST date_parse fetch req sv) = sv)
   \<and> (authorization preq = Some auth \<longrightarrow> json preq = Some patch \<longrightarrow>
        ur_start_time patch = Some st \<longrightarrow> ur_end_time patch = Some en \<longrightarrow> st \<noteq> [] \<longrightarrow> en \<noteq> [] \<longrightarrow>
        date_parse st = Some a \<longrightarrow> date_parse en = Some b \<longrightarrow> b \<le> a \<longrightarrow>
          status (fst (PATCH date_parse pfetch eid preq sv)) = 400
          \<and> snd (PATCH date_parse pfetch eid preq sv) = sv)
   \<and> (authorization req = Some auth \<longrightarrow> json req = Some body \<longrightarrow> auth_owner w auth = Some owner \<longrightarrow>
        read_ts w (cr_start_time body) = Given s \<longrightarrow> read_ts w (cr_end_time body) = Given e' \<longrightarrow>
        e' \<le> s \<longrightarrow>
          status (fst (POST date_parse (backend_create w now new_id) req tbl)) = 400
          \<and> snd (POST date_parse (backend_create w now new_id) req tbl) = tbl)
   \<and> (authorization preq = Some auth \<longrightarrow> json preq = Some patch \<longrightarrow> auth_owner w auth = Some owner \<longrightarrow>
        uuid_of w eid = Some rid \<longrightarrow> find (\<lambda>x. entry_id x = rid) tbl = Some old \<longrightarrow>
        user_id old = Some owner \<longrightarrow> start_time (merge_patch w patch old) = Some s \<longrightarrow>
        end_time (merge_patch w patch old) = Some e' \<longrightarrow> e' \<le> s \<longrightarrow>
          status (fst (PATCH date_parse (backend_update w now) eid preq tbl)) = 400
          \<and> snd (PATCH date_parse (backend_update w now) eid preq tbl) = tbl)"
proof (intro conjI impI)
  assume "reachable tbl" "r \<in> set tbl" "end_time r = Some e"
  then show "\<exists>s. start_time r = Some s \<and> s < e" by (rule reachable_causal)
next
  assume "start_time NEW = Some s" "end_time NEW = Some e'" "e' \<le> s"
  then show "isl (db_insert now NEW tbl)" by (rule db_insert_rejects)
next
  assume "filter (\<lambda>x. entry_id x = rid) tbl = old # rest" "start_time (upd old) = Some s"
    "end_time (upd old) = Some e'" "e' \<le> s"
  then show "isl (db_update now rid upd tbl)" by (rule db_update_rejects)
next
  assume h: "authorization req = Some auth" "json req = Some body" "cr_start_time body = Some st"
    "cr_end_time body = Some en" "st \<noteq> []" "en \<noteq> []" "date_parse st = Some a"
    "date_parse en = Some b" "b \<le> a"
  then have "end_before_start date_parse (cr_start_time body) (cr_end_time body)"
    by (simp add: end_before_start_parsed)
  from POST_rejects [where fetch = fetch and sv = sv, OF h(1,2) this]
  show "status (fst (POST date_parse fetch req sv)) = 400" "snd (POST date_parse fetch req sv) = sv"
    by (simp_all add: json_error_def)
next
  assume h: "authorization preq = Some auth" "json preq = Some patch" "ur_start_time patch = Some st"
    "ur_end_time patch = Some en" "st \<noteq> []" "en \<noteq> []" "date_parse st = Some a"
    "date_parse en = Some b" "b \<le> a"
  then have "end_before_start date_parse (ur_start_time patch) (ur_end_time patch)"
    by (simp add: end_before_start_parsed)
  from PATCH_rejects [where fetch = pfetch and sv = sv and eid = eid, OF h(1,2) this]
  show "status (fst (PATCH date_parse pfetch eid preq sv)) = 400"
    "snd (PATCH date_parse pfetch eid preq sv) = sv"
    by (simp_all add: json_error_def)
next
  assume h: "authorization req = Some auth" "json req = Some body" "auth_owner w auth = Some owner"
    "read_ts w (cr_start_time body) = Given s" "read_ts w (cr_end_time body) = Given e'" "e' \<le> s"
  from create_400 [OF h]
  show "status (fst (POST date_parse (backend_create w now new_id) req tbl)) = 400"
    "snd (POST date_parse (backend_create w now new_id) req tbl) = tbl"
    by simp_all
next
  assume h: "authorization preq = Some auth" "json preq = Some patch" "auth_owner w auth = Some owner"
    "uuid_of w eid = Some rid" "find (\<lambda>x. entry_id x = rid) tbl = Some old" "user_id old = Some owner"
    "start_time (merge_patch w patch old) = Some s" "end_time (merge_patch w patch old) = Some e'"
    "e' \<le> s"
  from update_400 [OF h]
  show "status (fst (PATCH date_parse (backend_update w now) eid preq tbl)) = 400"
    "snd (PATCH date_parse (backend_update w now) eid preq tbl) = tbl"
    by simp_all
qed

lemma busy_row_reachable: "reachable [busy_row 10]"
proof -
  have "db_insert 200000000 (completed_row 10 7 10000000 70000000) [] = Inr [busy_row 10]"
    by (simp add: db_insert_def calculate_duration_def completed_row_def start_row_def cast_integer_def
        round_seconds_def usecs_per_sec_def constraints_def not_null_def chk_end_after_start_def
        time_entries_pkey_def idx_time_entries_user_running_def busy_row_def)
  from reachable.insert [OF reachable.empty this] show ?thesis .
qed

theorem causality_enforced_witness:
  "reachable [busy_row 10] \<and> end_time (busy_row 10) = Some 70000000
   \<and> start_time (busy_row 10) = Some 10000000
   \<and> end_time (merge_patch example_wire example_patch (busy_row 10)) = Some 5000000
   \<and> \<not> end_before_start example_parse (ur_start_time example_patch) (ur_end_time example_patch)
   \<and> status (fst (PATCH example_parse (backend_update example_wire 300000000) ''e10''
        example_patch_request [busy_row 10])) = 400
   \<and> snd (PATCH example_parse (backend_update example_wire 300000000) ''e10''
        example_patch_request [busy_row 10]) = [busy_row 10]
   \<and> status (fst (POST example_parse (backend_create example_wire 300000000 11)
        example_draft_request [busy_row 10])) = 400"
proof -
  have a: "status (fst (PATCH example_parse (backend_update example_wire 300000000) ''e10''
        example_patch_request [busy_row 10])) = 400
   \<and> snd (PATCH example_parse (backend_update example_wire 300000000) ''e10''
        example_patch_request [busy_row 10]) = [busy_row 10]"
    using causality_enforced [where tbl = "[busy_row 10]" and w = example_wire
        and preq = example_patch_request and patch = example_patch
        and auth = "''Bearer u7''" and owner = 7 and eid = "''e10''" and rid = 10
        and old = "busy_row 10" and s = 10000000 and e' = 5000000 and date_parse = example_parse
        and now = 300000000, THEN conjunct2, THEN conjunct2, THEN conjunct2, THEN conjunct2,
        THEN conjunct2, THEN conjunct2]
    by (simp add: busy_row_def completed_row_def start_row_def merge_patch_def example_wire_def
        example_patch_def example_patch_request_def read_ts_def)
  have b: "status (fst (POST example_parse (backend_create example_wire 300000000 11)
        example_draft_request [busy_row 10])) = 400"
    using causality_enforced [where tbl = "[busy_row 10]" and w = example_wire
        and req = example_draft_request and body = example_draft
        and auth = "''Bearer u7''" and owner = 7 and s = 10000000 and e' = 10000000
        and date_parse = example_parse and now = 300000000 and new_id = 11,
        THEN conjunct2, THEN conjunct2, THEN conjunct2, THEN conjunct2, THEN conjunct2,
        THEN conjunct1]
    by (simp add: example_wire_def read_ts_def example_draft_request_def example_draft_def)
  show ?thesis
    using a b busy_row_reachable
    by (simp add: busy_row_def completed_row_def start_row_def merge_patch_def example_wire_def
        example_patch_def read_ts_def end_before_start_def)
qed

end
